theory Spec2Isabelle
  imports Main "HOL-Library.Word"
begin

unbundle bit_operations_syntax

section \<open>Data model (AT24Cxx.h)\<close>

text \<open>
  The chip models of \<^verbatim>\<open>AT24Cxx_CHIP\<close>. The C enumeration gives them the values
  \<^verbatim>\<open>0x01\<close> to \<^verbatim>\<open>0x0C\<close>; the driver compares models by these values
  (\<^verbatim>\<open>dev->info.type >= AT24C32\<close>), so the values are kept in \<open>chip_value\<close>.
\<close>

datatype AT24Cxx_CHIP =
    AT24C01 | AT24C02 | AT24C04 | AT24C08 | AT24C16 | AT24C32
  | AT24C64 | AT24C128 | AT24C256 | AT24C512 | AT24CM01 | AT24CM02

fun chip_value :: "AT24Cxx_CHIP \<Rightarrow> nat" where
  "chip_value AT24C01 = 0x01"
| "chip_value AT24C02 = 0x02"
| "chip_value AT24C04 = 0x03"
| "chip_value AT24C08 = 0x04"
| "chip_value AT24C16 = 0x05"
| "chip_value AT24C32 = 0x06"
| "chip_value AT24C64 = 0x07"
| "chip_value AT24C128 = 0x08"
| "chip_value AT24C256 = 0x09"
| "chip_value AT24C512 = 0x0A"
| "chip_value AT24CM01 = 0x0B"
| "chip_value AT24CM02 = 0x0C"

text \<open>
  \<^verbatim>\<open>AT24Cxx_INFO_t\<close>. The union \<^verbatim>\<open>i2caddr\<close> overlays three bit-field views on one
  byte; the model keeps the byte and writes each bit-field store as shift and mask.
  Bit-fields are laid out from the least significant bit, the layout the header's comments
  describe (\<^verbatim>\<open>bit0 : 1 read, 0 write\<close> for the lowest bit of \<^verbatim>\<open>byte\<close>, the family
  identifier \<^verbatim>\<open>1 0 1 0\<close> in the four bits after four bits of padding):
  bit 0 is unnamed, bits 1 to 3 are \<^verbatim>\<open>wordaddr.bit0..bit2\<close> and also \<^verbatim>\<open>hardaddr.bit\<close>,
  bits 4 to 7 are \<^verbatim>\<open>devtype.bit\<close>.
\<close>

record AT24Cxx_INFO_t =
  type :: AT24Cxx_CHIP
  i2caddr :: "8 word"
  pagesize :: "16 word"

text \<open>
  A store to a bit-field of \<open>width\<close> bits at bit position \<open>pos\<close> of the byte: the value
  is truncated to the width of the field, the other bits of the byte are kept.
\<close>

definition bitfield_store :: "nat \<Rightarrow> nat \<Rightarrow> 8 word \<Rightarrow> 8 word \<Rightarrow> 8 word" where
  "bitfield_store pos width v byte =
     (byte AND NOT (push_bit pos (mask width))) OR push_bit pos (v AND mask width)"

definition wordaddr_bit0_store :: "8 word \<Rightarrow> 8 word \<Rightarrow> 8 word" where
  "wordaddr_bit0_store = bitfield_store 1 1"

definition wordaddr_bit1_store :: "8 word \<Rightarrow> 8 word \<Rightarrow> 8 word" where
  "wordaddr_bit1_store = bitfield_store 2 1"

definition wordaddr_bit2_store :: "8 word \<Rightarrow> 8 word \<Rightarrow> 8 word" where
  "wordaddr_bit2_store = bitfield_store 3 1"

definition hardaddr_bit_store :: "8 word \<Rightarrow> 8 word \<Rightarrow> 8 word" where
  "hardaddr_bit_store = bitfield_store 1 3"

definition devtype_bit_store :: "8 word \<Rightarrow> 8 word \<Rightarrow> 8 word" where
  "devtype_bit_store = bitfield_store 4 4"

text \<open>
  The block transport \<^verbatim>\<open>hw_i2c_t\<close> (\<^verbatim>\<open>AT24Cxx_I2C_MODE == 1\<close>, the mode the header
  selects). Its declaration is in \<^verbatim>\<open>bus_i2c.h\<close>, outside the driver, so the two function
  pointers the driver calls are parameters: they act on the state \<open>'b\<close> of the bus and
  the chip behind it and return the status the driver stores in \<^verbatim>\<open>rsp\<close>.
  A pointer to bytes is the memory seen from it, \<open>nat \<Rightarrow> 8 word\<close>; \<open>rmem\<close> gets the
  buffer and returns it as it has left it.
\<close>

type_synonym bytes = "nat \<Rightarrow> 8 word"

record 'b hw_i2c_t =
  rmem :: "8 word \<Rightarrow> 32 word \<Rightarrow> 8 word \<Rightarrow> bytes \<Rightarrow> 32 word \<Rightarrow> 'b \<Rightarrow> (8 word \<times> bytes) \<times> 'b"
  wmem :: "8 word \<Rightarrow> 32 word \<Rightarrow> 8 word \<Rightarrow> bytes \<Rightarrow> 32 word \<Rightarrow> 'b \<Rightarrow> 8 word \<times> 'b"

text \<open>
  \<^verbatim>\<open>AT24Cxx_PORT_t\<close> holds the pointer to the bus, of type \<^verbatim>\<open>hw_i2c_t\<close> or
  \<^verbatim>\<open>sw_i2c_t\<close> by the mode; \<open>'p\<close> is that type.
\<close>

record 'p AT24Cxx_PORT_t =
  bus :: 'p

record 'p at24cxx_t =
  info :: AT24Cxx_INFO_t
  port :: "'p AT24Cxx_PORT_t"

text \<open>
  What the driver does to the outside: the state of the bus, and the sequence of block
  transfers it has requested (kept only to state properties of that sequence). A transfer
  is recorded with the arguments of the call; for a write, \<open>x_payload\<close> is the
  \<open>x_size\<close> bytes the data pointer addresses.
\<close>

datatype dir = RD | WR

record xfer =
  x_dir :: dir
  x_devaddr :: "8 word"
  x_memaddr :: "32 word"
  x_addrsize :: "8 word"
  x_size :: "32 word"
  x_payload :: "8 word list"

record 'b world =
  hw :: 'b
  xlog :: "xfer list"

definition call_wmem ::
  "'b hw_i2c_t at24cxx_t \<Rightarrow> 8 word \<Rightarrow> 32 word \<Rightarrow> 8 word \<Rightarrow> bytes \<Rightarrow> 32 word \<Rightarrow> 'b world
     \<Rightarrow> 8 word \<times> 'b world" where
  "call_wmem dev byte addr addrsize data sz w =
     (let (rsp, b) = wmem (bus (port dev)) byte addr addrsize data sz (hw w)
      in (rsp, \<lparr>hw = b,
                xlog = xlog w @ [\<lparr>x_dir = WR, x_devaddr = byte, x_memaddr = addr,
                                  x_addrsize = addrsize, x_size = sz,
                                  x_payload = map data [0..<unat sz]\<rparr>]\<rparr>))"

definition call_rmem ::
  "'b hw_i2c_t at24cxx_t \<Rightarrow> 8 word \<Rightarrow> 32 word \<Rightarrow> 8 word \<Rightarrow> bytes \<Rightarrow> 32 word \<Rightarrow> 'b world
     \<Rightarrow> (8 word \<times> bytes) \<times> 'b world" where
  "call_rmem dev byte addr addrsize data sz w =
     (let (r, b) = rmem (bus (port dev)) byte addr addrsize data sz (hw w)
      in (r, \<lparr>hw = b,
              xlog = xlog w @ [\<lparr>x_dir = RD, x_devaddr = byte, x_memaddr = addr,
                                x_addrsize = addrsize, x_size = sz,
                                x_payload = []\<rparr>]\<rparr>))"

text \<open>
  Undefined behaviour of the C code is a value of the model: a division by zero
  (\<^verbatim>\<open>i % dev->info.pagesize\<close> with a zero page size) is the fault \<open>DivByZero\<close>.
  A loop that does not come back is \<open>None\<close>.
\<close>

datatype fault = DivByZero

section \<open>Basic functions (AT24Cxx.c)\<close>

definition AT24Cxx_MAX_ERASE_SIZE :: "16 word" where
  "AT24Cxx_MAX_ERASE_SIZE = 10"

definition AT24Cxx_MAX_COMPARE_SIZE :: "8 word" where
  "AT24Cxx_MAX_COMPARE_SIZE = 10"

text \<open>\<^verbatim>\<open>rbit(val, x)\<close>: \<^verbatim>\<open>(((val) & (1<<(x)))>>(x))\<close>.\<close>

definition rbit :: "32 word \<Rightarrow> nat \<Rightarrow> 32 word" where
  "rbit val x = drop_bit x (val AND push_bit x 1)"

text \<open>
  \<^verbatim>\<open>min(a, b)\<close> and \<^verbatim>\<open>max(a, b)\<close>, the macros of the driver, at the types they are used at.
\<close>

definition min_macro :: "'a::linorder \<Rightarrow> 'a \<Rightarrow> 'a" where
  "min_macro a b = (if a < b then a else b)"

definition max_macro :: "'a::linorder \<Rightarrow> 'a \<Rightarrow> 'a" where
  "max_macro a b = (if a > b then a else b)"

text \<open>
  \<^verbatim>\<open>CurPageSize = pagesize - (i % pagesize)\<close>: the \<^verbatim>\<open>uint16_t\<close> page size is converted
  to the 32 bits of \<^verbatim>\<open>i\<close>, the difference is truncated to the \<^verbatim>\<open>uint16_t\<close> variable.
  The caller has excluded a zero page size.
\<close>

definition remaining_in_page :: "16 word \<Rightarrow> 32 word \<Rightarrow> 16 word" where
  "remaining_in_page ps i = ucast ((ucast ps :: 32 word) - (i mod ucast ps))"

definition AT24Cxx_GetPageWriteSize :: "'p at24cxx_t \<Rightarrow> 16 word" where
  "AT24Cxx_GetPageWriteSize dev =
     (if type (info dev) = AT24C01 \<or> type (info dev) = AT24C02 then 0x08
      else if type (info dev) = AT24C04 \<or> type (info dev) = AT24C08
              \<or> type (info dev) = AT24C16 then 0x10
      else if type (info dev) = AT24C32 \<or> type (info dev) = AT24C64 then 0x20
      else if type (info dev) = AT24C128 \<or> type (info dev) = AT24C256 then 0x40
      else if type (info dev) = AT24C512 then 0x80
      else if type (info dev) = AT24CM01 \<or> type (info dev) = AT24CM02 then 0x100
      else 0x08)"

text \<open>
  \<^verbatim>\<open>AT24Cxx_config\<close>. The two bit-field stores truncate \<^verbatim>\<open>devaddr\<close> to 4 bits and
  \<^verbatim>\<open>haraddr\<close> to 3 bits. In the block-transport mode there is no software reset of the
  bus; in the bit-level mode the reset acts on the bus only, not on the handle.
\<close>

definition AT24Cxx_config ::
  "'p at24cxx_t \<Rightarrow> AT24Cxx_CHIP \<Rightarrow> 8 word \<Rightarrow> 8 word \<Rightarrow> 'p at24cxx_t" where
  "AT24Cxx_config dev ty devaddr haraddr =
     (let dev1 = dev\<lparr>info := (info dev)\<lparr>type := ty\<rparr>\<rparr>;
          dev2 = dev1\<lparr>info := (info dev1)\<lparr>i2caddr := devtype_bit_store devaddr (i2caddr (info dev1))\<rparr>\<rparr>;
          dev3 = dev2\<lparr>info := (info dev2)\<lparr>i2caddr := hardaddr_bit_store haraddr (i2caddr (info dev2))\<rparr>\<rparr>
      in dev3\<lparr>info := (info dev3)\<lparr>pagesize := AT24Cxx_GetPageWriteSize dev3\<rparr>\<rparr>)"

text \<open>
  \<^verbatim>\<open>AT24Cxx_SetWordAddress\<close>: returns the handle with the spillover bits stored and the
  value written through \<^verbatim>\<open>addrsize\<close>.
\<close>

definition set_i2caddr :: "(8 word \<Rightarrow> 8 word) \<Rightarrow> 'p at24cxx_t \<Rightarrow> 'p at24cxx_t" where
  "set_i2caddr f dev = dev\<lparr>info := (info dev)\<lparr>i2caddr := f (i2caddr (info dev))\<rparr>\<rparr>"

definition AT24Cxx_SetWordAddress :: "'p at24cxx_t \<Rightarrow> 32 word \<Rightarrow> 'p at24cxx_t \<times> 8 word" where
  "AT24Cxx_SetWordAddress dev addr =
     (if chip_value (type (info dev)) \<ge> chip_value AT24C32 then
        ((case type (info dev) of
            AT24CM01 \<Rightarrow> set_i2caddr (wordaddr_bit0_store (ucast (rbit addr 16))) dev
          | AT24CM02 \<Rightarrow>
              set_i2caddr (wordaddr_bit1_store (ucast (rbit addr 17)))
                (set_i2caddr (wordaddr_bit0_store (ucast (rbit addr 16))) dev)
          | _ \<Rightarrow> dev), 2)
      else
        ((case type (info dev) of
            AT24C04 \<Rightarrow> set_i2caddr (wordaddr_bit0_store (ucast (rbit addr 8))) dev
          | AT24C08 \<Rightarrow>
              set_i2caddr (wordaddr_bit1_store (ucast (rbit addr 9)))
                (set_i2caddr (wordaddr_bit0_store (ucast (rbit addr 8))) dev)
          | AT24C16 \<Rightarrow>
              set_i2caddr (wordaddr_bit2_store (ucast (rbit addr 10)))
                (set_i2caddr (wordaddr_bit1_store (ucast (rbit addr 9)))
                  (set_i2caddr (wordaddr_bit0_store (ucast (rbit addr 8))) dev))
          | _ \<Rightarrow> dev), 1))"

text \<open>
  \<^verbatim>\<open>AT24Cxx_Read\<close>, block transport: the word address is set, then one \<^verbatim>\<open>rmem\<close> call.
  Returns the status, the buffer, the handle and the world.
\<close>

definition AT24Cxx_Read ::
  "'b hw_i2c_t at24cxx_t \<Rightarrow> 32 word \<Rightarrow> bytes \<Rightarrow> 32 word \<Rightarrow> 'b world
     \<Rightarrow> 8 word \<times> bytes \<times> 'b hw_i2c_t at24cxx_t \<times> 'b world" where
  "AT24Cxx_Read dev saddr data sz w =
     (let (dev', memaddr_size) = AT24Cxx_SetWordAddress dev saddr;
          ((rsp, data'), w') = call_rmem dev' (i2caddr (info dev')) saddr memaddr_size data sz w
      in (rsp, data', dev', w'))"

text \<open>
  \<^verbatim>\<open>AT24Cxx_Write\<close>, block transport. The loop
  \<^verbatim>\<open>for (i = saddr; i < EndAddr; i += size)\<close> is the recursion \<open>AT24Cxx_Write_loop\<close>
  over the variables the loop changes: \<open>i\<close>, \<open>RemainSize\<close>, the data pointer, \<open>rsp\<close>,
  the handle and the world. All arithmetic is that of \<^verbatim>\<open>uint32_t\<close>; \<open>CurPageSize\<close> is
  truncated to \<^verbatim>\<open>uint16_t\<close> as the assignment does. The status of each chunk is
  assigned to \<^verbatim>\<open>rsp\<close> (\<^verbatim>\<open>rsp = dev->port.bus->wmem(...)\<close>). The delay
  \<^verbatim>\<open>AT24CXX_WCYCLEMS\<close> after each chunk is a bounded busy loop with no effect on the
  data; it is left out.
\<close>

partial_function (option) AT24Cxx_Write_loop ::
  "32 word \<Rightarrow> 32 word \<Rightarrow> 32 word \<Rightarrow> bytes \<Rightarrow> 8 word \<Rightarrow> 'b hw_i2c_t at24cxx_t \<Rightarrow> 'b world
     \<Rightarrow> (fault + 8 word \<times> 'b hw_i2c_t at24cxx_t \<times> 'b world) option" where
  "AT24Cxx_Write_loop EndAddr i RemainSize data rsp dev w =
     (if i < EndAddr then
        if pagesize (info dev) = 0 then Some (Inl DivByZero)
        else
          let CurPageSize = remaining_in_page (pagesize (info dev)) i;
              sz = min_macro RemainSize (ucast CurPageSize);
              RemainSize' = RemainSize - sz;
              (dev', memaddr_size) = AT24Cxx_SetWordAddress dev i;
              (rsp', w') = call_wmem dev' (i2caddr (info dev')) i memaddr_size data sz w
          in AT24Cxx_Write_loop EndAddr (i + sz) RemainSize'
               (\<lambda>k. data (k + unat sz)) rsp' dev' w'
      else Some (Inr (rsp, dev, w)))"

definition AT24Cxx_Write ::
  "'b hw_i2c_t at24cxx_t \<Rightarrow> 32 word \<Rightarrow> bytes \<Rightarrow> 32 word \<Rightarrow> 'b world
     \<Rightarrow> (fault + 8 word \<times> 'b hw_i2c_t at24cxx_t \<times> 'b world) option" where
  "AT24Cxx_Write dev saddr data sz w =
     AT24Cxx_Write_loop (saddr + sz) saddr sz data 0 dev w"

text \<open>
  \<^verbatim>\<open>AT24Cxx_Erase\<close>, block transport. \<open>fbuf0\<close> is the indeterminate content of the
  array \<^verbatim>\<open>fbuf\<close> before \<^verbatim>\<open>memset\<close> fills its first \<open>erase_size\<close> bytes. The loop
  is that of \<^verbatim>\<open>AT24Cxx_Write\<close> with \<^verbatim>\<open>erase_size\<close> in the place of the page size:
  \<^verbatim>\<open>CurPageSize = erase_size - (i % erase_size)\<close>.
\<close>

partial_function (option) AT24Cxx_Erase_loop ::
  "16 word \<Rightarrow> bytes \<Rightarrow> 32 word \<Rightarrow> 32 word \<Rightarrow> 32 word \<Rightarrow> 8 word \<Rightarrow> 'b hw_i2c_t at24cxx_t \<Rightarrow> 'b world
     \<Rightarrow> (fault + 8 word \<times> 'b hw_i2c_t at24cxx_t \<times> 'b world) option" where
  "AT24Cxx_Erase_loop erase_size fbuf EndAddr i RemainSize rsp dev w =
     (if i < EndAddr then
        if erase_size = 0 then Some (Inl DivByZero)
        else
          let CurPageSize = remaining_in_page erase_size i;
              sz = min_macro RemainSize (ucast CurPageSize);
              RemainSize' = RemainSize - sz;
              (dev', memaddr_size) = AT24Cxx_SetWordAddress dev i;
              (rsp', w') = call_wmem dev' (i2caddr (info dev')) i memaddr_size fbuf sz w
          in AT24Cxx_Erase_loop erase_size fbuf EndAddr (i + sz) RemainSize' rsp' dev' w'
      else Some (Inr (rsp, dev, w)))"

definition AT24Cxx_Erase ::
  "'b hw_i2c_t at24cxx_t \<Rightarrow> 32 word \<Rightarrow> 8 word \<Rightarrow> 32 word \<Rightarrow> bytes \<Rightarrow> 'b world
     \<Rightarrow> (fault + 8 word \<times> 'b hw_i2c_t at24cxx_t \<times> 'b world) option" where
  "AT24Cxx_Erase dev saddr fdata sz fbuf0 w =
     (let erase_size0 = max_macro 8 AT24Cxx_MAX_ERASE_SIZE;
          erase_size = min_macro erase_size0 (pagesize (info dev));
          fbuf = (\<lambda>k. if k < unat erase_size then fdata else fbuf0 k)
      in AT24Cxx_Erase_loop erase_size fbuf (saddr + sz) saddr sz 0 dev w)"

section \<open>Application function (AT24Cxx.c)\<close>

text \<open>
  The comparison loops of \<^verbatim>\<open>AT24Cxx_Readback_Write\<close>,
  \<^verbatim>\<open>for (j = 0; j < n; j++) if (data[point + j] != compare_data[j]) return 1;\<close>
  with \<open>j\<close> and \<open>n\<close> of type \<^verbatim>\<open>uint8_t\<close>. The result is \<open>True\<close> when the
  loop returns 1. The index \<open>point + j\<close> is computed in \<^verbatim>\<open>int\<close>, so it does not wrap.
\<close>

function compare_loop :: "bytes \<Rightarrow> 16 word \<Rightarrow> bytes \<Rightarrow> 8 word \<Rightarrow> 8 word \<Rightarrow> bool" where
  "compare_loop data point compare_data n j =
     (if j < n then
        if data (unat point + unat j) \<noteq> compare_data (unat j) then True
        else compare_loop data point compare_data n (j + 1)
      else False)"
  by pat_completeness auto
termination
  by (relation "measure (\<lambda>(data, point, compare_data, n, j). unat n - unat j)")
    (simp, simp, unat_arith)

declare compare_loop.simps [simp del]

text \<open>
  The loop \<^verbatim>\<open>for (i = 0; i < quotient; i++)\<close> with \<open>i\<close> of type \<^verbatim>\<open>uint8_t\<close> and
  \<open>quot\<close> (the variable \<^verbatim>\<open>quotient\<close>) of type \<^verbatim>\<open>uint16_t\<close>: the comparison is made in \<^verbatim>\<open>int\<close>, the
  increment wraps at 256. \<open>point = i * AT24Cxx_MAX_COMPARE_SIZE\<close> is computed in
  \<^verbatim>\<open>int\<close> and stored in 16 bits, \<open>addr + point\<close> is computed in \<^verbatim>\<open>int\<close> and passed
  as \<^verbatim>\<open>uint32_t\<close>. The statuses of \<^verbatim>\<open>AT24Cxx_Read\<close> are dropped, as in the source.
  \<open>Inl\<close> is the \<^verbatim>\<open>return 1\<close> inside the loop, \<open>Inr\<close> the state at the exit of the loop.
\<close>

partial_function (option) Readback_loop ::
  "bytes \<Rightarrow> 16 word \<Rightarrow> 16 word \<Rightarrow> 8 word \<Rightarrow> 16 word \<Rightarrow> bytes \<Rightarrow> 'b hw_i2c_t at24cxx_t \<Rightarrow> 'b world
     \<Rightarrow> ((8 word \<times> 'b hw_i2c_t at24cxx_t \<times> 'b world)
          + (8 word \<times> 16 word \<times> bytes \<times> 'b hw_i2c_t at24cxx_t \<times> 'b world)) option" where
  "Readback_loop data addr quot i point compare_data dev w =
     (if unat i < unat quot then
        let point' = (word_of_nat (unat i * unat AT24Cxx_MAX_COMPARE_SIZE) :: 16 word);
            (rsp, compare_data', dev', w') =
               AT24Cxx_Read dev (ucast addr + ucast point') compare_data
                 (ucast AT24Cxx_MAX_COMPARE_SIZE) w
        in if compare_loop data point' compare_data' AT24Cxx_MAX_COMPARE_SIZE 0
           then Some (Inl (1, dev', w'))
           else Readback_loop data addr quot (i + 1) point' compare_data' dev' w'
      else Some (Inr (i, point, compare_data, dev, w)))"

text \<open>
  \<^verbatim>\<open>AT24Cxx_Readback_Write\<close>. \<open>compare_data0\<close> is the indeterminate content of the
  array \<^verbatim>\<open>compare_data\<close> at its declaration. The status of \<^verbatim>\<open>AT24Cxx_Write\<close> is
  dropped, as in the source.
\<close>

definition Readback_tail ::
  "bytes \<Rightarrow> 16 word \<Rightarrow> 16 word \<Rightarrow> 8 word \<Rightarrow> 8 word \<Rightarrow> 16 word \<Rightarrow> bytes
     \<Rightarrow> 'b hw_i2c_t at24cxx_t \<Rightarrow> 'b world \<Rightarrow> 8 word \<times> 'b hw_i2c_t at24cxx_t \<times> 'b world" where
  "Readback_tail data addr quot remainder i point compare_data dev w =
     (let point' = (if quot > 0
                    then word_of_nat (unat i * unat AT24Cxx_MAX_COMPARE_SIZE) else point);
          (rsp, compare_data', dev', w') =
             AT24Cxx_Read dev (ucast addr + ucast point') compare_data (ucast remainder) w
      in if compare_loop data point' compare_data' remainder 0 then (1, dev', w')
         else (0, dev', w'))"

definition AT24Cxx_Readback_Write ::
  "'b hw_i2c_t at24cxx_t \<Rightarrow> 16 word \<Rightarrow> bytes \<Rightarrow> 16 word \<Rightarrow> bytes \<Rightarrow> 'b world
     \<Rightarrow> (fault + 8 word \<times> 'b hw_i2c_t at24cxx_t \<times> 'b world) option" where
  "AT24Cxx_Readback_Write dev addr data sz compare_data0 w =
     (case AT24Cxx_Write dev (ucast addr) data (ucast sz) w of
        None \<Rightarrow> None
      | Some (Inl f) \<Rightarrow> Some (Inl f)
      | Some (Inr (rsp, dev1, w1)) \<Rightarrow>
          let quot = sz div ucast AT24Cxx_MAX_COMPARE_SIZE;
              remainder = (ucast (sz mod ucast AT24Cxx_MAX_COMPARE_SIZE) :: 8 word)
          in (case Readback_loop data addr quot 0 0 compare_data0 dev1 w1 of
                None \<Rightarrow> None
              | Some (Inl r) \<Rightarrow> Some (Inr r)
              | Some (Inr (i, point, compare_data, dev2, w2)) \<Rightarrow>
                  Some (Inr (Readback_tail data addr quot remainder i point
                               compare_data dev2 w2))))"

section \<open>The read path on the bit-level transport\<close>

text \<open>
  With \<^verbatim>\<open>AT24Cxx_I2C_MODE == 0\<close> the driver composes every transfer from the primitives
  of \<^verbatim>\<open>bus_i2c.h\<close>, which is outside the driver: they are parameters acting on the state
  \<open>'b\<close> of the bus. The write primitives return the acknowledge status, \<open>swi2c_rbyte\<close>
  the byte read. The primitives the driver calls are recorded in order.
\<close>

datatype ack = ACK | NACK

record 'b sw_i2c_t =
  swi2c_strt :: "'b \<Rightarrow> 'b"
  swi2c_stop :: "'b \<Rightarrow> 'b"
  swi2c_waddr :: "8 word \<Rightarrow> 'b \<Rightarrow> 8 word \<times> 'b"
  swi2c_raddr :: "8 word \<Rightarrow> 'b \<Rightarrow> 8 word \<times> 'b"
  swi2c_wbyte :: "8 word \<Rightarrow> 'b \<Rightarrow> 8 word \<times> 'b"
  swi2c_rbyte :: "ack \<Rightarrow> 'b \<Rightarrow> 8 word \<times> 'b"

datatype sw_event = Strt | Stop | Waddr "8 word" | Raddr "8 word" | Wbyte "8 word" | Rbyte ack

record 'b sw_world =
  sw_hw :: 'b
  sw_log :: "sw_event list"

definition call_strt :: "'b sw_i2c_t at24cxx_t \<Rightarrow> 'b sw_world \<Rightarrow> 'b sw_world" where
  "call_strt dev w = \<lparr>sw_hw = swi2c_strt (bus (port dev)) (sw_hw w), sw_log = sw_log w @ [Strt]\<rparr>"

definition call_stop :: "'b sw_i2c_t at24cxx_t \<Rightarrow> 'b sw_world \<Rightarrow> 'b sw_world" where
  "call_stop dev w = \<lparr>sw_hw = swi2c_stop (bus (port dev)) (sw_hw w), sw_log = sw_log w @ [Stop]\<rparr>"

definition call_waddr :: "'b sw_i2c_t at24cxx_t \<Rightarrow> 8 word \<Rightarrow> 'b sw_world \<Rightarrow> 8 word \<times> 'b sw_world" where
  "call_waddr dev x w =
     (let (r, b) = swi2c_waddr (bus (port dev)) x (sw_hw w)
      in (r, \<lparr>sw_hw = b, sw_log = sw_log w @ [Waddr x]\<rparr>))"

definition call_raddr :: "'b sw_i2c_t at24cxx_t \<Rightarrow> 8 word \<Rightarrow> 'b sw_world \<Rightarrow> 8 word \<times> 'b sw_world" where
  "call_raddr dev x w =
     (let (r, b) = swi2c_raddr (bus (port dev)) x (sw_hw w)
      in (r, \<lparr>sw_hw = b, sw_log = sw_log w @ [Raddr x]\<rparr>))"

definition call_wbyte :: "'b sw_i2c_t at24cxx_t \<Rightarrow> 8 word \<Rightarrow> 'b sw_world \<Rightarrow> 8 word \<times> 'b sw_world" where
  "call_wbyte dev x w =
     (let (r, b) = swi2c_wbyte (bus (port dev)) x (sw_hw w)
      in (r, \<lparr>sw_hw = b, sw_log = sw_log w @ [Wbyte x]\<rparr>))"

definition call_rbyte :: "'b sw_i2c_t at24cxx_t \<Rightarrow> ack \<Rightarrow> 'b sw_world \<Rightarrow> 8 word \<times> 'b sw_world" where
  "call_rbyte dev a w =
     (let (r, b) = swi2c_rbyte (bus (port dev)) a (sw_hw w)
      in (r, \<lparr>sw_hw = b, sw_log = sw_log w @ [Rbyte a]\<rparr>))"

text \<open>
  Modelled from the spec: the macros \<^verbatim>\<open>LSB_16\<close> and \<^verbatim>\<open>MSB_16\<close> of \<^verbatim>\<open>bus_i2c.h\<close>,
  which is not among the sources. The spec: with a 2-byte word address the driver emits
  ``the low 16 bits of \<open>linear_address\<close> as two word-address bytes (high byte first)'',
  with a 1-byte word address ``the low 8 bits of \<open>linear_address\<close> as the single
  word-address byte''. The argument of \<^verbatim>\<open>swi2c_wbyte\<close> is a byte.
\<close>

definition LSB_16 :: "32 word \<Rightarrow> 8 word" where
  "LSB_16 x = ucast x"

definition MSB_16 :: "32 word \<Rightarrow> 8 word" where
  "MSB_16 x = ucast (drop_bit 8 x)"

text \<open>
  The word-address bytes the bit-level paths put on the bus after the device address
  (\<^verbatim>\<open>if (memaddr_size == 1) ... else ...\<close> in Read, Write and Erase).
\<close>

definition word_address_bytes :: "8 word \<Rightarrow> 32 word \<Rightarrow> 8 word list" where
  "word_address_bytes memaddr_size addr =
     (if memaddr_size = 1 then [LSB_16 addr] else [MSB_16 addr, LSB_16 addr])"

text \<open>
  The loop \<^verbatim>\<open>for (i = 0; i < size - 1; i++) data[i] = swi2c_rbyte(bus, ACK);\<close> of the
  bit-level \<^verbatim>\<open>AT24Cxx_Read\<close>; \<open>size - 1\<close> is computed in \<^verbatim>\<open>uint32_t\<close>.
\<close>

function Read_sw_loop ::
  "'b sw_i2c_t at24cxx_t \<Rightarrow> 32 word \<Rightarrow> 32 word \<Rightarrow> bytes \<Rightarrow> 'b sw_world
     \<Rightarrow> 32 word \<times> bytes \<times> 'b sw_world" where
  "Read_sw_loop dev sz i data w =
     (if i < sz - 1 then
        let (b, w') = call_rbyte dev ACK w
        in Read_sw_loop dev sz (i + 1) (data(unat i := b)) w'
      else (i, data, w))"
  by pat_completeness auto
termination
  by (relation "measure (\<lambda>(dev, sz, i, data, w). unat (sz - 1) - unat i)")
    (simp, simp, unat_arith)

declare Read_sw_loop.simps [simp del]

definition AT24Cxx_Read_sw ::
  "'b sw_i2c_t at24cxx_t \<Rightarrow> 32 word \<Rightarrow> bytes \<Rightarrow> 32 word \<Rightarrow> 'b sw_world
     \<Rightarrow> 8 word \<times> bytes \<times> 'b sw_i2c_t at24cxx_t \<times> 'b sw_world" where
  "AT24Cxx_Read_sw dev0 saddr data0 sz w0 =
     (let rsp = 0;
          (dev, memaddr_size) = AT24Cxx_SetWordAddress dev0 saddr;
          w = call_strt dev w0;
          (rsp, w) =
            (if memaddr_size = 1 then
               let (r, w) = call_waddr dev (i2caddr (info dev)) w; rsp = rsp OR r;
                   (r, w) = call_wbyte dev (LSB_16 saddr) w; rsp = rsp OR r
               in (rsp, w)
             else
               let (r, w) = call_waddr dev (i2caddr (info dev)) w; rsp = rsp OR r;
                   (r, w) = call_wbyte dev (MSB_16 saddr) w; rsp = rsp OR r;
                   (r, w) = call_wbyte dev (LSB_16 saddr) w; rsp = rsp OR r
               in (rsp, w));
          w = call_strt dev w;
          (r, w) = call_raddr dev (i2caddr (info dev)) w; rsp = rsp OR r;
          (i, data, w) = Read_sw_loop dev sz 0 data0 w;
          (b, w) = call_rbyte dev NACK w;
          data = data(unat i := b);
          w = call_stop dev w
      in (rsp, data, dev, w))"

section \<open>The chip table and the notions the properties are stated with\<close>

text \<open>
  The table at the head of \<^verbatim>\<open>AT24Cxx.c\<close>: the capacity of each model in bytes (column
  ``Byte'', pages times bytes per page) and its density in Kbit, the number in its name.
\<close>

fun capacity :: "AT24Cxx_CHIP \<Rightarrow> nat" where
  "capacity AT24C01 = 16 * 8"
| "capacity AT24C02 = 32 * 8"
| "capacity AT24C04 = 32 * 16"
| "capacity AT24C08 = 64 * 16"
| "capacity AT24C16 = 128 * 16"
| "capacity AT24C32 = 128 * 32"
| "capacity AT24C64 = 256 * 32"
| "capacity AT24C128 = 256 * 64"
| "capacity AT24C256 = 512 * 64"
| "capacity AT24C512 = 512 * 128"
| "capacity AT24CM01 = 512 * 256"
| "capacity AT24CM02 = 1024 * 256"

definition density_kbit :: "AT24Cxx_CHIP \<Rightarrow> nat" where
  "density_kbit ty = capacity ty * 8 div 1024"

text \<open>
  The word-address width as the specification gives it: 2 bytes from 32 Kbit on, 1 byte
  below.
\<close>

definition spec_word_address_width :: "AT24Cxx_CHIP \<Rightarrow> 8 word" where
  "spec_word_address_width ty = (if density_kbit ty \<ge> 32 then 2 else 1)"

text \<open>
  The spillover bits as the specification lists them: the address bits that go to bits
  1, 2, 3 of the device-address byte, in this order.
\<close>

definition spec_spillover :: "AT24Cxx_CHIP \<Rightarrow> nat list" where
  "spec_spillover ty =
     (case ty of
        AT24C04 \<Rightarrow> [8]
      | AT24C08 \<Rightarrow> [8, 9]
      | AT24C16 \<Rightarrow> [8, 9, 10]
      | AT24CM01 \<Rightarrow> [16]
      | AT24CM02 \<Rightarrow> [16, 17]
      | _ \<Rightarrow> [])"

text \<open>
  The decoder of the specification's round trip, inverse bit extraction: the word-address bytes, most significant first, give the low
  bits of the address; the spillover bits are read back from bit 1 of the device-address
  byte upwards and placed above them.
\<close>

definition spec_decode_address :: "AT24Cxx_CHIP \<Rightarrow> 8 word \<Rightarrow> 8 word list \<Rightarrow> 32 word" where
  "spec_decode_address ty byte ws =
     (let word = foldl (\<lambda>acc b. push_bit 8 acc OR ucast b) 0 ws;
          spill = ucast (take_bit (length (spec_spillover ty)) (drop_bit 1 byte))
      in push_bit (8 * length ws) spill OR word)"

text \<open>
  A sequence of transfers is contiguous from \<open>a\<close> when the first starts at \<open>a\<close>, each
  has at least one byte, and each next one starts where the one before it ends; such
  chunks do not overlap. A transfer lies within one page of \<open>ps\<close> bytes when its first
  and its last byte have the same page number.
\<close>

fun contiguous_from :: "nat \<Rightarrow> xfer list \<Rightarrow> bool" where
  "contiguous_from a [] = True"
| "contiguous_from a (x # xs) =
     (unat (x_memaddr x) = a \<and> 0 < unat (x_size x)
      \<and> contiguous_from (a + unat (x_size x)) xs)"

definition within_page :: "nat \<Rightarrow> xfer \<Rightarrow> bool" where
  "within_page ps x =
     (unat (x_memaddr x) div ps = (unat (x_memaddr x) + unat (x_size x) - 1) div ps)"

definition total_size :: "xfer list \<Rightarrow> nat" where
  "total_size xs = sum_list (map (\<lambda>x. unat (x_size x)) xs)"

definition chunks_ok :: "nat \<Rightarrow> nat \<Rightarrow> nat \<Rightarrow> xfer list \<Rightarrow> bool" where
  "chunks_ok ps a n new =
     (total_size new = n \<and> contiguous_from a new \<and> (\<forall>x \<in> set new. within_page ps x))"

text \<open>
  What an operation may change of a handle: bits 1 to 3 of the device-address byte and
  nothing else.
\<close>

definition only_bits_1_3_changed :: "'p at24cxx_t \<Rightarrow> 'p at24cxx_t \<Rightarrow> bool" where
  "only_bits_1_3_changed dev dev' =
     (i2caddr (info dev') AND 0xF1 = i2caddr (info dev) AND 0xF1
      \<and> type (info dev') = type (info dev)
      \<and> pagesize (info dev') = pagesize (info dev)
      \<and> port dev' = port dev)"

text \<open>
  Two transports make the same transfers when every call moves the same data and leaves the
  bus in the same state; the statuses they report may differ. Two handles are the same up
  to statuses when their fields agree and their transports make the same transfers.
  \<open>verdict\<close> is what a call returns, with the fields of the handle and the world.
  \<open>rel_res\<close> and \<open>rel_loop\<close> relate the results of two runs up to statuses.
\<close>

definition same_transfers :: "'b hw_i2c_t \<Rightarrow> 'b hw_i2c_t \<Rightarrow> bool" where
  "same_transfers B B' =
     (\<forall>byte addr addrsize buf sz b.
        snd (fst (rmem B byte addr addrsize buf sz b)) = snd (fst (rmem B' byte addr addrsize buf sz b))
        \<and> snd (rmem B byte addr addrsize buf sz b) = snd (rmem B' byte addr addrsize buf sz b)
        \<and> snd (wmem B byte addr addrsize buf sz b) = snd (wmem B' byte addr addrsize buf sz b))"

definition same_handle :: "'b hw_i2c_t at24cxx_t \<Rightarrow> 'b hw_i2c_t at24cxx_t \<Rightarrow> bool" where
  "same_handle dev dev' =
     (info dev = info dev' \<and> same_transfers (bus (port dev)) (bus (port dev')))"

definition verdict ::
  "(fault + 8 word \<times> 'p at24cxx_t \<times> 'w) option \<Rightarrow> (fault + 8 word \<times> AT24Cxx_INFO_t \<times> 'w) option" where
  "verdict r = map_option (map_sum id (\<lambda>(v, dev, w). (v, info dev, w))) r"

fun rel_res ::
  "(fault + 8 word \<times> 'b hw_i2c_t at24cxx_t \<times> 'w)
     \<Rightarrow> (fault + 8 word \<times> 'b hw_i2c_t at24cxx_t \<times> 'w) \<Rightarrow> bool" where
  "rel_res (Inl f) (Inl f') = (f = f')"
| "rel_res (Inr (r, d, w)) (Inr (r', d', w')) = (same_handle d d' \<and> w = w')"
| "rel_res _ _ = False"

fun rel_loop ::
  "((8 word \<times> 'b hw_i2c_t at24cxx_t \<times> 'w)
      + (8 word \<times> 16 word \<times> bytes \<times> 'b hw_i2c_t at24cxx_t \<times> 'w))
     \<Rightarrow> ((8 word \<times> 'b hw_i2c_t at24cxx_t \<times> 'w)
      + (8 word \<times> 16 word \<times> bytes \<times> 'b hw_i2c_t at24cxx_t \<times> 'w)) \<Rightarrow> bool" where
  "rel_loop (Inl (v, d, w)) (Inl (v', d', w')) = (v = v' \<and> same_handle d d' \<and> w = w')"
| "rel_loop (Inr (i, p, cd, d, w)) (Inr (i', p', cd', d', w')) =
     (i = i' \<and> p = p' \<and> cd = cd' \<and> same_handle d d' \<and> w = w')"
| "rel_loop _ _ = False"

text \<open>
  What a sequence of bit-level primitives does when it is carried out in order: a start or
  a stop acts on the bus, the status a write primitive returns is OR-ed into the status, a
  byte read is stored at the next index of the buffer. The state is the status, the buffer,
  the next index and the bus.
\<close>

fun step_prim ::
  "'b sw_i2c_t \<Rightarrow> sw_event \<Rightarrow> 8 word \<times> bytes \<times> nat \<times> 'b \<Rightarrow> 8 word \<times> bytes \<times> nat \<times> 'b" where
  "step_prim B Strt (rsp, data, k, b) = (rsp, data, k, swi2c_strt B b)"
| "step_prim B Stop (rsp, data, k, b) = (rsp, data, k, swi2c_stop B b)"
| "step_prim B (Waddr x) (rsp, data, k, b) =
     (rsp OR fst (swi2c_waddr B x b), data, k, snd (swi2c_waddr B x b))"
| "step_prim B (Raddr x) (rsp, data, k, b) =
     (rsp OR fst (swi2c_raddr B x b), data, k, snd (swi2c_raddr B x b))"
| "step_prim B (Wbyte x) (rsp, data, k, b) =
     (rsp OR fst (swi2c_wbyte B x b), data, k, snd (swi2c_wbyte B x b))"
| "step_prim B (Rbyte a) (rsp, data, k, b) =
     (rsp, data(k := fst (swi2c_rbyte B a b)), Suc k, snd (swi2c_rbyte B a b))"

definition exec_prims ::
  "'b sw_i2c_t \<Rightarrow> sw_event list \<Rightarrow> 8 word \<times> bytes \<times> nat \<times> 'b \<Rightarrow> 8 word \<times> bytes \<times> nat \<times> 'b" where
  "exec_prims B evs s = foldl (\<lambda>s e. step_prim B e s) s evs"

section \<open>A simulated bus for concrete runs\<close>

text \<open>
  A block transport over a chip whose cells all read 0: a read fills the buffer with
  zeros, a write is taken. The statuses are given per address by \<open>rst\<close> and \<open>wst\<close>.
\<close>

definition sim_bus :: "(32 word \<Rightarrow> 8 word) \<Rightarrow> (32 word \<Rightarrow> 8 word) \<Rightarrow> unit hw_i2c_t" where
  "sim_bus rst wst =
     \<lparr>rmem = (\<lambda>byte addr addrsize buf sz b.
                ((rst addr, (\<lambda>k. if k < unat sz then 0 else buf k)), b)),
      wmem = (\<lambda>byte addr addrsize data sz b. (wst addr, b))\<rparr>"

definition quiet_bus :: "unit hw_i2c_t" where
  "quiet_bus = sim_bus (\<lambda>a. 0) (\<lambda>a. 0)"

text \<open>A handle before \<^verbatim>\<open>AT24Cxx_config\<close>, and the world before any transfer.\<close>

definition blank :: "'p \<Rightarrow> 'p at24cxx_t" where
  "blank p = \<lparr>info = \<lparr>type = AT24C01, i2caddr = 0, pagesize = 0\<rparr>, port = \<lparr>bus = p\<rparr>\<rparr>"

definition world0 :: "unit world" where
  "world0 = \<lparr>hw = (), xlog = []\<rparr>"

definition zeros :: bytes where
  "zeros = (\<lambda>k. 0)"

text \<open>
  A second transport over the same chip: the write at address 0 reports a failure
  (status 1), every other transfer reports success.
\<close>

definition first_write_fails_bus :: "unit hw_i2c_t" where
  "first_write_fails_bus = sim_bus (\<lambda>a. 0) (\<lambda>a. if a = 0 then 1 else 0)"

text \<open>
  What a caller observes of a call: the status, the fields of the handle and the transfers
  requested.
\<close>

definition outcome ::
  "(fault + 8 word \<times> 'p at24cxx_t \<times> 'b world) option
     \<Rightarrow> (fault + 8 word \<times> AT24Cxx_INFO_t \<times> xfer list) option" where
  "outcome r = map_option (map_sum id (\<lambda>(rsp, dev, w). (rsp, info dev, xlog w))) r"

text \<open>
  An AT24C16 with family identifier \<^verbatim>\<open>1010\<close>, the handle after a transfer at address
  \<^verbatim>\<open>0x320\<close> (address bits 8 and 9 set), and the transfers of 4 bytes there.
\<close>

definition chip16 :: "unit hw_i2c_t at24cxx_t" where
  "chip16 = AT24Cxx_config (blank quiet_bus) AT24C16 0xA 0"

definition chip16_at_320 :: "unit hw_i2c_t at24cxx_t" where
  "chip16_at_320 = fst (AT24Cxx_SetWordAddress chip16 0x320)"

definition write_320 :: xfer where
  "write_320 = \<lparr>x_dir = WR, x_devaddr = 0xA6, x_memaddr = 0x320, x_addrsize = 1, x_size = 4,
     x_payload = [0, 0, 0, 0]\<rparr>"

definition read_320 :: "32 word \<Rightarrow> xfer" where
  "read_320 n = \<lparr>x_dir = RD, x_devaddr = 0xA6, x_memaddr = 0x320, x_addrsize = 1, x_size = n,
     x_payload = []\<rparr>"

text \<open>
  A block transport whose state counts the transfers: a read reports the status 1 and
  delivers the bytes 7, 8, 9, ...; an AT24C16 on it.
\<close>

definition tagged_bus :: "nat hw_i2c_t" where
  "tagged_bus =
     \<lparr>rmem = (\<lambda>byte addr addrsize buf sz b.
                ((1, (\<lambda>k. if k < unat sz then word_of_nat (7 + k) else buf k)), Suc b)),
      wmem = (\<lambda>byte addr addrsize data sz b. (0, Suc b))\<rparr>"

definition chip16_tagged :: "nat hw_i2c_t at24cxx_t" where
  "chip16_tagged = AT24Cxx_config (blank tagged_bus) AT24C16 0xA 0"

text \<open>
  A bit-level bus with a counter as state: a start adds 10 to it and a stop 100, a byte
  read returns 7 plus the counter and increments it; the device address is acknowledged
  (status 0), a byte written reports 4 and the read address 1. An AT24C32 on it.
\<close>

definition sw_tagged_bus :: "nat sw_i2c_t" where
  "sw_tagged_bus =
     \<lparr>swi2c_strt = (\<lambda>b. b + 10), swi2c_stop = (\<lambda>b. b + 100),
      swi2c_waddr = (\<lambda>x b. (0, b)), swi2c_raddr = (\<lambda>x b. (1, b)),
      swi2c_wbyte = (\<lambda>x b. (4, b)), swi2c_rbyte = (\<lambda>a b. (word_of_nat (7 + b), Suc b))\<rparr>"

definition sw_chip32_tagged :: "nat sw_i2c_t at24cxx_t" where
  "sw_chip32_tagged = AT24Cxx_config (blank sw_tagged_bus) AT24C32 0xA 0"

text \<open>
  A transport over the same chip on which every transfer reports a failure (status 1), and
  the AT24C16 on it.
\<close>

definition failing_bus :: "unit hw_i2c_t" where
  "failing_bus = sim_bus (\<lambda>a. 1) (\<lambda>a. 1)"

definition chip16_failing :: "unit hw_i2c_t at24cxx_t" where
  "chip16_failing = AT24Cxx_config (blank failing_bus) AT24C16 0xA 0"

section \<open>The address encoder\<close>

lemma bit_bitfield_store:
  "bit (bitfield_store pos width v byte) n =
     (if pos \<le> n \<and> n < pos + width then n < 8 \<and> bit v (n - pos) else bit byte n)"
  by (auto simp add: bitfield_store_def bit_simps dest: bit_imp_le_length)

lemma bit_ucast_rbit:
  "bit (ucast (rbit addr x) :: 8 word) n = (n = 0 \<and> x < 32 \<and> bit addr x)"
  by (auto simp add: rbit_def bit_simps)

lemma SetWordAddress_bit:
  "bit (i2caddr (info (fst (AT24Cxx_SetWordAddress dev addr)))) n =
     (if 1 \<le> n \<and> n \<le> length (spec_spillover (type (info dev)))
      then bit addr (spec_spillover (type (info dev)) ! (n - 1))
      else bit (i2caddr (info dev)) n)"
  by (cases "type (info dev)")
    (auto simp add: AT24Cxx_SetWordAddress_def spec_spillover_def set_i2caddr_def
       wordaddr_bit0_store_def wordaddr_bit1_store_def wordaddr_bit2_store_def
       bit_bitfield_store bit_ucast_rbit)

lemma SetWordAddress_size:
  "snd (AT24Cxx_SetWordAddress dev addr) = (if chip_value (type (info dev)) \<ge> 6 then 2 else 1)"
  by (simp add: AT24Cxx_SetWordAddress_def)

lemma SetWordAddress_rest:
  "fst (AT24Cxx_SetWordAddress dev addr) =
     dev\<lparr>info := (info dev)\<lparr>i2caddr := i2caddr (info (fst (AT24Cxx_SetWordAddress dev addr)))\<rparr>\<rparr>"
  by (cases "type (info dev)") (simp_all add: AT24Cxx_SetWordAddress_def set_i2caddr_def)

lemma spec_width_chip_value:
  "spec_word_address_width ty = (if chip_value ty \<ge> 6 then 2 else 1)"
  by (cases ty) (simp_all add: spec_word_address_width_def density_kbit_def)

text \<open>
  C6. \<^verbatim>\<open>AT24Cxx_SetWordAddress\<close> reports the word-address width of the specification (2
  bytes from AT24C32 on, 1 byte below), stores the listed spillover bits of the address in
  bits 1, 2, 3 of the device-address byte in this order, and changes nothing else: the
  other bits of the byte and the other fields of the handle stay, and with an empty list
  the whole byte stays.
\<close>

theorem SetWordAddress_width_and_spillover:
  "snd (AT24Cxx_SetWordAddress dev addr) = spec_word_address_width (type (info dev))
   \<and> (\<forall>n. bit (i2caddr (info (fst (AT24Cxx_SetWordAddress dev addr)))) n =
          (if 1 \<le> n \<and> n \<le> length (spec_spillover (type (info dev)))
           then bit addr (spec_spillover (type (info dev)) ! (n - 1))
           else bit (i2caddr (info dev)) n))
   \<and> fst (AT24Cxx_SetWordAddress dev addr) =
        dev\<lparr>info := (info dev)\<lparr>i2caddr := i2caddr (info (fst (AT24Cxx_SetWordAddress dev addr)))\<rparr>\<rparr>"
  using SetWordAddress_rest [of dev addr]
  by (simp add: SetWordAddress_size spec_width_chip_value SetWordAddress_bit)

lemma config_info:
  "info (AT24Cxx_config dev ty devaddr haraddr) =
     \<lparr>type = ty,
      i2caddr = hardaddr_bit_store haraddr (devtype_bit_store devaddr (i2caddr (info dev))),
      pagesize = AT24Cxx_GetPageWriteSize (dev\<lparr>info := (info dev)\<lparr>type := ty\<rparr>\<rparr>)\<rparr>"
  by (simp add: AT24Cxx_config_def Let_def AT24Cxx_GetPageWriteSize_def)

theorem SetWordAddress_width_and_spillover_witness:
  "snd (AT24Cxx_SetWordAddress (AT24Cxx_config (blank quiet_bus) AT24C16 0xA 0) 0x5A5) = 1
   \<and> spec_spillover AT24C16 = [8, 9, 10]
   \<and> i2caddr (info (AT24Cxx_config (blank quiet_bus) AT24C16 0xA 0)) = 0xA0
   \<and> i2caddr (info (fst (AT24Cxx_SetWordAddress
         (AT24Cxx_config (blank quiet_bus) AT24C16 0xA 0) 0x5A5))) = 0xAA"
proof -
  let ?dev = "AT24Cxx_config (blank quiet_bus) AT24C16 0xA 0"
  have "spec_word_address_width (type (info ?dev)) = 1" by code_simp
  moreover have "snd (AT24Cxx_SetWordAddress ?dev 0x5A5) = spec_word_address_width (type (info ?dev))"
    using SetWordAddress_width_and_spillover [of ?dev "0x5A5"] by (rule conjunct1)
  moreover have "spec_spillover AT24C16 = [8, 9, 10]" by code_simp
  moreover have "i2caddr (info ?dev) = 0xA0" by code_simp
  moreover have "i2caddr (info (fst (AT24Cxx_SetWordAddress ?dev 0x5A5))) = 0xAA" by code_simp
  ultimately show ?thesis by simp
qed

lemma take_bit_bounded:
  fixes addr :: "32 word"
  assumes "unat addr < 2 ^ k"
  shows "take_bit k addr = addr"
proof -
  have "unat (take_bit k addr) = unat addr"
    using assms by (simp add: unsigned_take_bit_eq take_bit_nat_eq_self)
  then show ?thesis by (simp only: word_unat_eq_iff)
qed

lemma bit_bounded_less:
  fixes addr :: "32 word"
  assumes "unat addr < 2 ^ k" and "bit addr n"
  shows "n < k"
proof (rule ccontr)
  assume "\<not> n < k"
  then have "\<not> bit (take_bit k addr) n" by (simp add: bit_take_bit_iff)
  with assms show False by (simp add: take_bit_bounded)
qed

lemmas bit_bounds =
  bit_bounded_less [where k = 7, simplified] bit_bounded_less [where k = 8, simplified]
  bit_bounded_less [where k = 9, simplified] bit_bounded_less [where k = 10, simplified]
  bit_bounded_less [where k = 11, simplified] bit_bounded_less [where k = 12, simplified]
  bit_bounded_less [where k = 13, simplified] bit_bounded_less [where k = 14, simplified]
  bit_bounded_less [where k = 15, simplified] bit_bounded_less [where k = 16, simplified]
  bit_bounded_less [where k = 17, simplified] bit_bounded_less [where k = 18, simplified]

text \<open>An address below the capacity has no bit above the word address and the spillover.\<close>

lemma capacity_bit:
  fixes addr :: "32 word"
  assumes "unat addr < capacity ty" and "bit addr n"
  shows "n < (if chip_value ty \<ge> 6 then 16 else 8) + length (spec_spillover ty)"
  using assms by (cases ty) (auto simp add: spec_spillover_def dest: bit_bounds)

lemma spec_spillover_nth:
  "k < length (spec_spillover ty) \<Longrightarrow>
     spec_spillover ty ! k = (if chip_value ty \<ge> 6 then 16 else 8) + k"
  by (cases ty) (auto simp add: spec_spillover_def less_Suc_eq nth_Cons')

lemma bit_decode_1:
  "bit (spec_decode_address ty byte [l]) n =
     (if n < 8 then bit l n
      else n < 32 \<and> n - 8 < length (spec_spillover ty) \<and> bit byte (n - 8 + 1))"
  by (auto simp add: spec_decode_address_def bit_simps dest: bit_imp_le_length)

lemma bit_decode_2:
  "bit (spec_decode_address ty byte [h, l]) n =
     (if n < 8 then bit l n
      else if n < 16 then bit h (n - 8)
      else n < 32 \<and> n - 16 < length (spec_spillover ty) \<and> bit byte (n - 16 + 1))"
  by (auto simp add: spec_decode_address_def bit_simps dest: bit_imp_le_length)

lemma bit_LSB_16: "bit (LSB_16 x) n = (n < 8 \<and> bit x n)"
  by (auto simp add: LSB_16_def bit_simps)

lemma bit_MSB_16: "bit (MSB_16 x) n = (n < 8 \<and> bit x (n + 8))"
  by (auto simp add: MSB_16_def bit_simps ac_simps)

text \<open>
  C5. For every model and every address below the capacity of the model, decoding the
  device-address byte that \<^verbatim>\<open>AT24Cxx_SetWordAddress\<close> leaves in the handle together with
  the word-address bytes sent for the reported width gives the address back.
\<close>

theorem address_roundtrip:
  assumes "unat addr < capacity (type (info dev))"
  shows "spec_decode_address (type (info dev))
           (i2caddr (info (fst (AT24Cxx_SetWordAddress dev addr))))
           (word_address_bytes (snd (AT24Cxx_SetWordAddress dev addr)) addr) = addr"
proof (rule bit_eqI)
  fix n
  from capacity_bit [OF assms, of n]
  show "bit (spec_decode_address (type (info dev))
           (i2caddr (info (fst (AT24Cxx_SetWordAddress dev addr))))
           (word_address_bytes (snd (AT24Cxx_SetWordAddress dev addr)) addr)) n = bit addr n"
    by (auto simp add: SetWordAddress_size word_address_bytes_def bit_decode_1 bit_decode_2
          bit_LSB_16 bit_MSB_16 SetWordAddress_bit spec_spillover_nth dest: bit_imp_le_length)
qed

theorem address_roundtrip_witness:
  "unat (0x2ABCD :: 32 word)
     < capacity (type (info (AT24Cxx_config (blank quiet_bus) AT24CM02 0xA 0)))
   \<and> i2caddr (info (fst (AT24Cxx_SetWordAddress
        (AT24Cxx_config (blank quiet_bus) AT24CM02 0xA 0) 0x2ABCD))) = 0xA4
   \<and> word_address_bytes (snd (AT24Cxx_SetWordAddress
        (AT24Cxx_config (blank quiet_bus) AT24CM02 0xA 0) 0x2ABCD)) 0x2ABCD = [0xAB, 0xCD]
   \<and> spec_decode_address (type (info (AT24Cxx_config (blank quiet_bus) AT24CM02 0xA 0)))
        (i2caddr (info (fst (AT24Cxx_SetWordAddress
           (AT24Cxx_config (blank quiet_bus) AT24CM02 0xA 0) 0x2ABCD))))
        (word_address_bytes (snd (AT24Cxx_SetWordAddress
           (AT24Cxx_config (blank quiet_bus) AT24CM02 0xA 0) 0x2ABCD)) 0x2ABCD)
       = 0x2ABCD"
proof -
  let ?dev = "AT24Cxx_config (blank quiet_bus) AT24CM02 0xA 0"
  have h: "unat (0x2ABCD :: 32 word) < capacity (type (info ?dev))"
    by (simp add: config_info)
  have "i2caddr (info (fst (AT24Cxx_SetWordAddress ?dev 0x2ABCD))) = 0xA4" by code_simp
  moreover have "word_address_bytes (snd (AT24Cxx_SetWordAddress ?dev 0x2ABCD)) 0x2ABCD
      = [0xAB, 0xCD]" by code_simp
  ultimately show ?thesis using h address_roundtrip [OF h] by simp
qed

section \<open>What the operations change of the handle\<close>

lemma fixed_mask: "(0xF1 :: 8 word) = NOT (push_bit 1 (mask 3))"
  by code_simp

lemma bit_fixed_mask: "bit (0xF1 :: 8 word) n = (n < 8 \<and> \<not> (1 \<le> n \<and> n < 4))"
  unfolding fixed_mask by (simp only: bit_simps) auto

lemma bitfield_store_fixed:
  assumes "1 \<le> pos" and "pos + width \<le> 4"
  shows "bitfield_store pos width v byte AND 0xF1 = byte AND 0xF1"
proof (rule bit_eqI)
  fix n
  show "bit (bitfield_store pos width v byte AND 0xF1) n = bit (byte AND 0xF1) n"
    unfolding bit_and_iff bit_bitfield_store bit_fixed_mask using assms by auto
qed

lemma SetWordAddress_only_bits_1_3:
  "only_bits_1_3_changed dev (fst (AT24Cxx_SetWordAddress dev addr))"
  by (cases "type (info dev)")
    (simp_all add: only_bits_1_3_changed_def AT24Cxx_SetWordAddress_def set_i2caddr_def
       wordaddr_bit0_store_def wordaddr_bit1_store_def wordaddr_bit2_store_def
       bitfield_store_fixed)

lemma SetWordAddress_port: "port (fst (AT24Cxx_SetWordAddress dev addr)) = port dev"
  using SetWordAddress_only_bits_1_3 [of dev addr] by (simp add: only_bits_1_3_changed_def)

lemma only_bits_1_3_refl: "only_bits_1_3_changed dev dev"
  by (simp add: only_bits_1_3_changed_def)

lemma only_bits_1_3_trans:
  "only_bits_1_3_changed a b \<Longrightarrow> only_bits_1_3_changed b c \<Longrightarrow> only_bits_1_3_changed a c"
  by (simp add: only_bits_1_3_changed_def)

section \<open>The paged transfer splitter\<close>

lemma unat_ucast_16_32: "unat (ucast (p :: 16 word) :: 32 word) = unat p"
proof -
  have "unat p < 2 ^ 16" using unsigned_less [of p] by simp
  then have "unat p < (2 :: nat) ^ 32" by simp
  then show ?thesis by (simp add: unsigned_ucast_eq take_bit_nat_eq_self)
qed

lemma unat_remaining_in_page:
  assumes "ps \<noteq> 0"
  shows "unat (ucast (remaining_in_page ps i) :: 32 word) = unat ps - unat i mod unat ps"
proof -
  let ?P = "ucast ps :: 32 word"
  have P: "unat ?P = unat ps" by (rule unat_ucast_16_32)
  have pos: "0 < unat ps" using assms by (simp add: unat_gt_0)
  have m: "unat (i mod ?P) = unat i mod unat ps" by (simp add: unat_mod_distrib P)
  have "i mod ?P \<le> ?P" using pos by (simp add: word_le_nat_alt m P less_imp_le)
  then have d: "unat (?P - i mod ?P) = unat ps - unat i mod unat ps"
    by (simp add: unat_sub m P)
  have "unat ps < 2 ^ 16" using unsigned_less [of ps] by simp
  then have small: "unat ps - unat i mod unat ps < 2 ^ 16" by simp
  have "unat (ucast (?P - i mod ?P) :: 16 word) = unat ps - unat i mod unat ps"
    using small by (simp add: unsigned_ucast_eq d take_bit_nat_eq_self)
  then show ?thesis by (simp add: remaining_in_page_def unat_ucast_16_32)
qed

lemma unat_chunk:
  fixes R :: "32 word"
  assumes "ps \<noteq> 0"
  shows "unat (min_macro R (ucast (remaining_in_page ps i))) = min (unat R) (unat ps - unat i mod unat ps)"
  by (simp add: min_macro_def word_less_nat_alt unat_remaining_in_page [OF assms] min_def)

lemma same_page:
  fixes a s p :: nat
  assumes "0 < s" and "s \<le> p - a mod p"
  shows "(a + s - 1) div p = a div p"
proof (rule div_nat_eqI)
  have "p * (a div p) \<le> a" by simp
  also have "a \<le> a + s - 1" using assms(1) by simp
  finally show "p * (a div p) \<le> a + s - 1" .
  from assms have "0 < p" by (cases "p = 0") simp_all
  then have m: "a mod p < p" by simp
  have e: "p * (a div p) + a mod p = a" by simp
  have "a + s - 1 < a + (p - a mod p)" using assms by simp
  also have "\<dots> = (p * (a div p) + a mod p) + (p - a mod p)" by (simp only: e)
  also have "\<dots> = p * (a div p) + p" using m by (simp only: add.assoc le_add_diff_inverse less_imp_le)
  finally show "a + s - 1 < p * Suc (a div p)" by simp
qed

lemma call_wmem_log:
  "xlog (snd (call_wmem dev byte addr asz data sz w)) =
     xlog w @ [\<lparr>x_dir = WR, x_devaddr = byte, x_memaddr = addr, x_addrsize = asz,
                x_size = sz, x_payload = map data [0..<unat sz]\<rparr>]"
  by (simp add: call_wmem_def split: prod.split)

lemma Write_loop_total:
  fixes R :: "32 word"
  assumes "pagesize (info dev) \<noteq> 0" and "unat i + unat R = unat E"
  shows "\<exists>rsp' dev' w' new.
           AT24Cxx_Write_loop E i R data rsp dev w = Some (Inr (rsp', dev', w'))
           \<and> only_bits_1_3_changed dev dev'
           \<and> xlog w' = xlog w @ new
           \<and> chunks_ok (unat (pagesize (info dev))) (unat i) (unat R) new"
  using assms
proof (induction "unat R" arbitrary: i R data rsp dev w rule: less_induct)
  case less
  let ?ps = "pagesize (info dev)"
  show ?case
  proof (cases "R = 0")
    case True
    with less.prems have "\<not> i < E" by (simp add: word_less_nat_alt)
    then have "AT24Cxx_Write_loop E i R data rsp dev w = Some (Inr (rsp, dev, w))"
      by (simp add: AT24Cxx_Write_loop.simps [of E i])
    with True show ?thesis
      by (simp add: only_bits_1_3_refl chunks_ok_def total_size_def)
  next
    case False
    then have Rpos: "0 < unat R" by (simp add: unat_gt_0)
    with less.prems have iE: "i < E" by (simp add: word_less_nat_alt)
    define sz where "sz = min_macro R (ucast (remaining_in_page ?ps i))"
    have psz: "0 < unat ?ps" using less.prems(1) by (simp add: unat_gt_0)
    have usz: "unat sz = min (unat R) (unat ?ps - unat i mod unat ?ps)"
      unfolding sz_def by (rule unat_chunk [OF less.prems(1)])
    have "unat i mod unat ?ps < unat ?ps" using psz by simp
    with usz Rpos have szpos: "0 < unat sz" by simp
    have szR: "unat sz \<le> unat R" using usz by simp
    have szpage: "unat sz \<le> unat ?ps - unat i mod unat ?ps" using usz by simp
    define dev1 where "dev1 = fst (AT24Cxx_SetWordAddress dev i)"
    define asz where "asz = snd (AT24Cxx_SetWordAddress dev i)"
    define r1 where "r1 = fst (call_wmem dev1 (i2caddr (info dev1)) i asz data sz w)"
    define w1 where "w1 = snd (call_wmem dev1 (i2caddr (info dev1)) i asz data sz w)"
    define x where "x = \<lparr>x_dir = WR, x_devaddr = i2caddr (info dev1), x_memaddr = i,
        x_addrsize = asz, x_size = sz, x_payload = map data [0..<unat sz]\<rparr>"
    have step: "AT24Cxx_Write_loop E i R data rsp dev w =
        AT24Cxx_Write_loop E (i + sz) (R - sz) (\<lambda>k. data (k + unat sz)) r1 dev1 w1"
      using iE less.prems(1)
      by (simp add: AT24Cxx_Write_loop.simps [of E i] Let_def sz_def dev1_def asz_def
            r1_def w1_def split_beta)
    have sub: "unat (R - sz) = unat R - unat sz"
      using szR by (simp add: unat_sub word_le_nat_alt)
    have "unat i + unat sz \<le> unat E" using less.prems(2) szR by simp
    moreover have "unat E < 2 ^ LENGTH(32)" by (rule unsigned_less)
    ultimately have "unat i + unat sz < 2 ^ LENGTH(32)" by linarith
    then have add: "unat (i + sz) = unat i + unat sz" by (simp add: unat_add_lem [THEN iffD1])
    have d1: "only_bits_1_3_changed dev dev1"
      unfolding dev1_def by (rule SetWordAddress_only_bits_1_3)
    then have ps1: "pagesize (info dev1) = ?ps" by (simp add: only_bits_1_3_changed_def)
    have "\<exists>rsp' dev' w' new.
           AT24Cxx_Write_loop E (i + sz) (R - sz) (\<lambda>k. data (k + unat sz)) r1 dev1 w1
             = Some (Inr (rsp', dev', w'))
           \<and> only_bits_1_3_changed dev1 dev'
           \<and> xlog w' = xlog w1 @ new
           \<and> chunks_ok (unat (pagesize (info dev1))) (unat (i + sz)) (unat (R - sz)) new"
    proof (rule less.hyps)
      show "unat (R - sz) < unat R" using sub szpos Rpos by simp
      show "pagesize (info dev1) \<noteq> 0" using ps1 less.prems(1) by simp
      show "unat (i + sz) + unat (R - sz) = unat E" using add sub szR less.prems(2) by simp
    qed
    then obtain rsp' dev' w' new where
      run: "AT24Cxx_Write_loop E (i + sz) (R - sz) (\<lambda>k. data (k + unat sz)) r1 dev1 w1
             = Some (Inr (rsp', dev', w'))"
      and d2: "only_bits_1_3_changed dev1 dev'"
      and lg: "xlog w' = xlog w1 @ new"
      and ok: "chunks_ok (unat ?ps) (unat i + unat sz) (unat R - unat sz) new"
      by (auto simp add: ps1 add sub)
    have w1log: "xlog w1 = xlog w @ [x]"
      unfolding w1_def x_def by (rule call_wmem_log)
    have xin: "within_page (unat ?ps) x"
      unfolding within_page_def x_def using same_page [OF szpos szpage] by simp
    have "chunks_ok (unat ?ps) (unat i) (unat R) (x # new)"
      using ok xin szpos szR by (simp add: chunks_ok_def total_size_def x_def)
    moreover have "xlog w' = xlog w @ (x # new)" using lg w1log by simp
    moreover have "only_bits_1_3_changed dev dev'" using d1 d2 by (rule only_bits_1_3_trans)
    ultimately show ?thesis unfolding step run by auto
  qed
qed

text \<open>The definitions a concrete run unfolds.\<close>

lemmas run_defs =
  outcome_def AT24Cxx_Erase_def AT24Cxx_Write_def AT24Cxx_Erase_loop.simps AT24Cxx_Write_loop.simps
  Let_def min_macro_def max_macro_def AT24Cxx_MAX_ERASE_SIZE_def remaining_in_page_def
  AT24Cxx_SetWordAddress_def set_i2caddr_def call_wmem_def call_rmem_def
  wordaddr_bit0_store_def wordaddr_bit1_store_def wordaddr_bit2_store_def
  hardaddr_bit_store_def devtype_bit_store_def bitfield_store_def rbit_def
  AT24Cxx_config_def AT24Cxx_GetPageWriteSize_def blank_def quiet_bus_def sim_bus_def
  first_write_fails_bus_def world0_def zeros_def

text \<open>
  C4, amended. For every handle with a page size of at least 1 and every start address and
  size whose sum does not wrap around in 32 bits, \<^verbatim>\<open>AT24Cxx_Write\<close> returns, and the
  transfers it has requested have sizes that sum to the size, are contiguous from the start
  address (so they do not overlap), and each lies within a single page.
\<close>

theorem Write_chunks_cover_within_pages:
  assumes "pagesize (info dev) \<noteq> 0" and "unat saddr + unat sz < 2 ^ 32"
  shows "\<exists>rsp dev' w' new.
           AT24Cxx_Write dev saddr data sz w = Some (Inr (rsp, dev', w'))
           \<and> xlog w' = xlog w @ new
           \<and> total_size new = unat sz
           \<and> contiguous_from (unat saddr) new
           \<and> (\<forall>x \<in> set new. within_page (unat (pagesize (info dev))) x)"
proof -
  have "unat saddr + unat sz < 2 ^ LENGTH(32)" using assms(2) by simp
  then have "unat saddr + unat sz = unat (saddr + sz)"
    by (simp add: unat_add_lem [THEN iffD1])
  from Write_loop_total [OF assms(1) this, of data 0 w]
  show ?thesis by (auto simp add: AT24Cxx_Write_def chunks_ok_def)
qed

theorem Write_chunks_cover_within_pages_witness:
  "pagesize (info (AT24Cxx_config (blank quiet_bus) AT24C32 0xA 0)) \<noteq> 0
   \<and> unat (100 :: 32 word) + unat (50 :: 32 word) < 2 ^ 32
   \<and> (\<exists>rsp dev' w' new.
         AT24Cxx_Write (AT24Cxx_config (blank quiet_bus) AT24C32 0xA 0) 100 zeros 50 world0
           = Some (Inr (rsp, dev', w'))
         \<and> xlog w' = xlog world0 @ new
         \<and> total_size new = unat (50 :: 32 word)
         \<and> contiguous_from (unat (100 :: 32 word)) new
         \<and> (\<forall>x \<in> set new. within_page
               (unat (pagesize (info (AT24Cxx_config (blank quiet_bus) AT24C32 0xA 0)))) x))
   \<and> outcome (AT24Cxx_Write (AT24Cxx_config (blank quiet_bus) AT24C32 0xA 0) 100 zeros 50 world0)
       = Some (Inr (0, \<lparr>type = AT24C32, i2caddr = 0xA0, pagesize = 32\<rparr>,
           [\<lparr>x_dir = WR, x_devaddr = 0xA0, x_memaddr = 100, x_addrsize = 2, x_size = 28,
             x_payload = replicate 28 0\<rparr>,
            \<lparr>x_dir = WR, x_devaddr = 0xA0, x_memaddr = 128, x_addrsize = 2, x_size = 22,
             x_payload = replicate 22 0\<rparr>]))"
proof -
  let ?dev = "AT24Cxx_config (blank quiet_bus) AT24C32 0xA 0"
  have h1: "pagesize (info ?dev) \<noteq> 0" by (simp add: config_info AT24Cxx_GetPageWriteSize_def)
  have h2: "unat (100 :: 32 word) + unat (50 :: 32 word) < 2 ^ 32" by simp
  have run: "outcome (AT24Cxx_Write ?dev 100 zeros 50 world0)
       = Some (Inr (0, \<lparr>type = AT24C32, i2caddr = 0xA0, pagesize = 32\<rparr>,
           [\<lparr>x_dir = WR, x_devaddr = 0xA0, x_memaddr = 100, x_addrsize = 2, x_size = 28,
             x_payload = replicate 28 0\<rparr>,
            \<lparr>x_dir = WR, x_devaddr = 0xA0, x_memaddr = 128, x_addrsize = 2, x_size = 22,
             x_payload = replicate 22 0\<rparr>]))"
    by (simp add: run_defs, code_simp)
  from h1 h2 Write_chunks_cover_within_pages [OF h1 h2, of zeros world0] run
  show ?thesis by (intro conjI)
qed

text \<open>
  C4 as stated, for every start address and size, fails where the end address wraps: a
  write of 1 byte at \<^verbatim>\<open>0xFFFFFFFF\<close> has \<^verbatim>\<open>EndAddr = 0\<close>, the loop is not entered,
  no transfer is requested and the call returns 0.
\<close>

theorem Write_chunks_overflow_counterexample:
  "pagesize (info (AT24Cxx_config (blank quiet_bus) AT24C01 0xA 0)) = 8
   \<and> AT24Cxx_Write (AT24Cxx_config (blank quiet_bus) AT24C01 0xA 0) 0xFFFFFFFF zeros 1 world0
       = Some (Inr (0, AT24Cxx_config (blank quiet_bus) AT24C01 0xA 0, world0))
   \<and> total_size (xlog world0) \<noteq> unat (1 :: 32 word)"
  by (simp add: AT24Cxx_Write_def AT24Cxx_Write_loop.simps config_info
        AT24Cxx_GetPageWriteSize_def world0_def total_size_def)

text \<open>
  C1. \<^verbatim>\<open>AT24Cxx_Erase\<close> on the block transport aligns its chunks to
  \<^verbatim>\<open>erase_size = min(max(8, AT24Cxx_MAX_ERASE_SIZE), pagesize)\<close>, not to the page size.
  On an AT24C04 (16-byte pages) the erase of 10 bytes from address 10 is one transfer of
  the bytes 10 to 19, across the page boundary at 16, where \<^verbatim>\<open>AT24Cxx_Write\<close> of the
  same range requests the bytes 10 to 15 and then 16 to 19.
\<close>

theorem Erase_chunk_crosses_page_boundary:
  "outcome (AT24Cxx_Erase (AT24Cxx_config (blank quiet_bus) AT24C04 0xA 0) 10 0xFF 10 zeros world0)
     = Some (Inr (0, \<lparr>type = AT24C04, i2caddr = 0xA0, pagesize = 16\<rparr>,
         [\<lparr>x_dir = WR, x_devaddr = 0xA0, x_memaddr = 10, x_addrsize = 1, x_size = 10,
           x_payload = [255, 255, 255, 255, 255, 255, 255, 255, 255, 255]\<rparr>]))
   \<and> \<not> within_page 16 \<lparr>x_dir = WR, x_devaddr = 0xA0, x_memaddr = 10, x_addrsize = 1, x_size = 10,
           x_payload = [255, 255, 255, 255, 255, 255, 255, 255, 255, 255]\<rparr>
   \<and> outcome (AT24Cxx_Write (AT24Cxx_config (blank quiet_bus) AT24C04 0xA 0) 10 zeros 10 world0)
     = Some (Inr (0, \<lparr>type = AT24C04, i2caddr = 0xA0, pagesize = 16\<rparr>,
         [\<lparr>x_dir = WR, x_devaddr = 0xA0, x_memaddr = 10, x_addrsize = 1, x_size = 6,
           x_payload = [0, 0, 0, 0, 0, 0]\<rparr>,
          \<lparr>x_dir = WR, x_devaddr = 0xA0, x_memaddr = 16, x_addrsize = 1, x_size = 4,
           x_payload = [0, 0, 0, 0]\<rparr>]))"
  by (simp add: run_defs within_page_def, code_simp)

text \<open>
  C2. On the block transport \<^verbatim>\<open>AT24Cxx_Write\<close> and \<^verbatim>\<open>AT24Cxx_Erase\<close> assign the
  status of each chunk to \<^verbatim>\<open>rsp\<close> (\<^verbatim>\<open>rsp = ...->wmem(...)\<close>), so they return the
  status of the last chunk. On an AT24C01 (8-byte pages) 16 bytes from address 0 are two
  chunks; the first reports a failure, the second succeeds, and both calls return 0.
\<close>

theorem Write_Erase_status_of_last_chunk_only:
  "fst (wmem first_write_fails_bus 0xA0 0 1 zeros 8 ()) = 1
   \<and> outcome (AT24Cxx_Write (AT24Cxx_config (blank first_write_fails_bus) AT24C01 0xA 0)
                0 zeros 16 world0)
     = Some (Inr (0, \<lparr>type = AT24C01, i2caddr = 0xA0, pagesize = 8\<rparr>,
         [\<lparr>x_dir = WR, x_devaddr = 0xA0, x_memaddr = 0, x_addrsize = 1, x_size = 8,
           x_payload = [0, 0, 0, 0, 0, 0, 0, 0]\<rparr>,
          \<lparr>x_dir = WR, x_devaddr = 0xA0, x_memaddr = 8, x_addrsize = 1, x_size = 8,
           x_payload = [0, 0, 0, 0, 0, 0, 0, 0]\<rparr>]))
   \<and> outcome (AT24Cxx_Erase (AT24Cxx_config (blank first_write_fails_bus) AT24C01 0xA 0)
                0 0 16 zeros world0)
     = Some (Inr (0, \<lparr>type = AT24C01, i2caddr = 0xA0, pagesize = 8\<rparr>,
         [\<lparr>x_dir = WR, x_devaddr = 0xA0, x_memaddr = 0, x_addrsize = 1, x_size = 8,
           x_payload = [0, 0, 0, 0, 0, 0, 0, 0]\<rparr>,
          \<lparr>x_dir = WR, x_devaddr = 0xA0, x_memaddr = 8, x_addrsize = 1, x_size = 8,
           x_payload = [0, 0, 0, 0, 0, 0, 0, 0]\<rparr>]))"
  by (simp add: run_defs, code_simp)

section \<open>The device-address byte across the operations\<close>

lemma Write_loop_keeps:
  assumes "AT24Cxx_Write_loop E i R data rsp dev w = Some y"
  shows "\<forall>r d w'. y = Inr (r, d, w') \<longrightarrow> only_bits_1_3_changed dev d"
  using assms
proof (induct rule: AT24Cxx_Write_loop.raw_induct [rotated, consumes 1])
  case (1 loop E i R data rsp dev w y)
  show ?case
  proof (cases "i < E \<and> pagesize (info dev) \<noteq> 0")
    case False
    with 1(2) show ?thesis
      by (auto simp add: only_bits_1_3_refl split: if_splits)
  next
    case True
    define sz where "sz = min_macro R (ucast (remaining_in_page (pagesize (info dev)) i))"
    define dev1 where "dev1 = fst (AT24Cxx_SetWordAddress dev i)"
    define asz where "asz = snd (AT24Cxx_SetWordAddress dev i)"
    define r1 where "r1 = fst (call_wmem dev1 (i2caddr (info dev1)) i asz data sz w)"
    define w1 where "w1 = snd (call_wmem dev1 (i2caddr (info dev1)) i asz data sz w)"
    from 1(2) True
    have "loop E (i + sz) (R - sz) (\<lambda>k. data (k + unat sz)) r1 dev1 w1 = Some y"
      by (simp add: Let_def split_beta sz_def dev1_def asz_def r1_def w1_def)
    then have "\<forall>r d w'. y = Inr (r, d, w') \<longrightarrow> only_bits_1_3_changed dev1 d" by (rule 1(1))
    moreover have "only_bits_1_3_changed dev dev1"
      unfolding dev1_def by (rule SetWordAddress_only_bits_1_3)
    ultimately show ?thesis by (blast intro: only_bits_1_3_trans)
  qed
qed

lemma Erase_loop_keeps:
  assumes "AT24Cxx_Erase_loop es fbuf E i R rsp dev w = Some y"
  shows "\<forall>r d w'. y = Inr (r, d, w') \<longrightarrow> only_bits_1_3_changed dev d"
  using assms
proof (induct rule: AT24Cxx_Erase_loop.raw_induct [rotated, consumes 1])
  case (1 loop es fbuf E i R rsp dev w y)
  show ?case
  proof (cases "i < E \<and> es \<noteq> 0")
    case False
    with 1(2) show ?thesis
      by (auto simp add: only_bits_1_3_refl split: if_splits)
  next
    case True
    define sz where "sz = min_macro R (ucast (remaining_in_page es i))"
    define dev1 where "dev1 = fst (AT24Cxx_SetWordAddress dev i)"
    define asz where "asz = snd (AT24Cxx_SetWordAddress dev i)"
    define r1 where "r1 = fst (call_wmem dev1 (i2caddr (info dev1)) i asz fbuf sz w)"
    define w1 where "w1 = snd (call_wmem dev1 (i2caddr (info dev1)) i asz fbuf sz w)"
    from 1(2) True
    have "loop es fbuf E (i + sz) (R - sz) r1 dev1 w1 = Some y"
      by (simp add: Let_def split_beta sz_def dev1_def asz_def r1_def w1_def)
    then have "\<forall>r d w'. y = Inr (r, d, w') \<longrightarrow> only_bits_1_3_changed dev1 d" by (rule 1(1))
    moreover have "only_bits_1_3_changed dev dev1"
      unfolding dev1_def by (rule SetWordAddress_only_bits_1_3)
    ultimately show ?thesis by (blast intro: only_bits_1_3_trans)
  qed
qed

lemma Read_keeps:
  "only_bits_1_3_changed dev (fst (snd (snd (AT24Cxx_Read dev saddr buf sz w))))"
  by (simp add: AT24Cxx_Read_def split_beta Let_def SetWordAddress_only_bits_1_3)

lemma Readback_loop_keeps:
  assumes "Readback_loop data addr q i point cd dev w = Some y"
  shows "(\<forall>r d w'. y = Inl (r, d, w') \<longrightarrow> only_bits_1_3_changed dev d)
       \<and> (\<forall>i' p' cd' d w'. y = Inr (i', p', cd', d, w') \<longrightarrow> only_bits_1_3_changed dev d)"
  using assms
proof (induct rule: Readback_loop.raw_induct [rotated, consumes 1])
  case (1 loop data addr q i point cd dev w y)
  show ?case
  proof (cases "unat i < unat q")
    case False
    with 1(2) show ?thesis by (auto simp add: only_bits_1_3_refl)
  next
    case True
    define p1 where "p1 = (word_of_nat (unat i * unat AT24Cxx_MAX_COMPARE_SIZE) :: 16 word)"
    define rd where "rd = AT24Cxx_Read dev (ucast addr + ucast p1) cd (ucast AT24Cxx_MAX_COMPARE_SIZE) w"
    define dev1 where "dev1 = fst (snd (snd rd))"
    have k: "only_bits_1_3_changed dev dev1" unfolding dev1_def rd_def by (rule Read_keeps)
    show ?thesis
    proof (cases "compare_loop data p1 (fst (snd rd)) AT24Cxx_MAX_COMPARE_SIZE 0")
      case mism: True
      with 1(2) True have "y = Inl (1, dev1, snd (snd (snd rd)))"
        by (simp add: Let_def split_beta p1_def rd_def dev1_def)
      with k show ?thesis by simp
    next
      case match: False
      with 1(2) True
      have "loop data addr q (i + 1) p1 (fst (snd rd)) dev1 (snd (snd (snd rd))) = Some y"
        by (simp add: Let_def split_beta p1_def rd_def dev1_def)
      from 1(1) [OF this] k show ?thesis by (blast intro: only_bits_1_3_trans)
    qed
  qed
qed

lemma Readback_tail_keeps:
  "only_bits_1_3_changed dev (fst (snd (Readback_tail data addr q rem i point cd dev w)))"
  by (simp add: Readback_tail_def Let_def split_beta Read_keeps)

lemma Readback_Write_keeps:
  assumes "AT24Cxx_Readback_Write dev addr data sz cd0 w = Some (Inr (r, d, w'))"
  shows "only_bits_1_3_changed dev d"
proof -
  from assms obtain r1 dev1 w1 where
    wr: "AT24Cxx_Write dev (ucast addr) data (ucast sz) w = Some (Inr (r1, dev1, w1))"
    by (auto simp add: AT24Cxx_Readback_Write_def split: option.splits sum.splits)
  then have k1: "only_bits_1_3_changed dev dev1"
    using Write_loop_keeps by (fastforce simp add: AT24Cxx_Write_def)
  define q where "q = sz div ucast AT24Cxx_MAX_COMPARE_SIZE"
  define rem where "rem = (ucast (sz mod ucast AT24Cxx_MAX_COMPARE_SIZE) :: 8 word)"
  from assms wr obtain y where
    lp: "Readback_loop data addr q 0 0 cd0 dev1 w1 = Some y"
    by (auto simp add: AT24Cxx_Readback_Write_def Let_def q_def split: option.splits)
  show ?thesis
  proof (cases y)
    case (Inl a)
    with assms wr lp have "a = (r, d, w')"
      by (simp add: AT24Cxx_Readback_Write_def Let_def q_def)
    with Readback_loop_keeps [OF lp] Inl have "only_bits_1_3_changed dev1 d" by simp
    with k1 show ?thesis by (rule only_bits_1_3_trans)
  next
    case (Inr b)
    obtain i' p' cd' dev2 w2 where b: "b = (i', p', cd', dev2, w2)" by (cases b)
    with Readback_loop_keeps [OF lp] Inr have k2: "only_bits_1_3_changed dev1 dev2" by simp
    from assms wr lp Inr b
    have "(r, d, w') = Readback_tail data addr q rem i' p' cd' dev2 w2"
      by (simp add: AT24Cxx_Readback_Write_def Let_def q_def rem_def)
    then have "d = fst (snd (Readback_tail data addr q rem i' p' cd' dev2 w2))"
      by (metis fst_conv snd_conv)
    then have "only_bits_1_3_changed dev2 d" by (simp add: Readback_tail_keeps)
    with k1 k2 show ?thesis by (blast intro: only_bits_1_3_trans)
  qed
qed


lemmas readback_defs =
  AT24Cxx_Readback_Write_def Readback_loop.simps Readback_tail_def AT24Cxx_Read_def
  AT24Cxx_MAX_COMPARE_SIZE_def compare_loop.simps

lemma config_top_nibble:
  "drop_bit 4 (i2caddr (info (AT24Cxx_config dev ty devaddr haraddr))) = take_bit 4 devaddr"
proof (rule bit_eqI)
  fix n
  show "bit (drop_bit 4 (i2caddr (info (AT24Cxx_config dev ty devaddr haraddr)))) n
      = bit (take_bit 4 devaddr) n"
    by (auto simp add: config_info hardaddr_bit_store_def devtype_bit_store_def
          bit_drop_bit_eq bit_take_bit_iff bit_bitfield_store dest: bit_imp_le_length)
qed

lemma only_bits_1_3_top_nibble:
  assumes "only_bits_1_3_changed a b"
  shows "drop_bit 4 (i2caddr (info b)) = drop_bit 4 (i2caddr (info a))"
proof (rule bit_eqI)
  fix n
  from assms have "bit (i2caddr (info b) AND 0xF1) (n + 4) = bit (i2caddr (info a) AND 0xF1) (n + 4)"
    by (simp add: only_bits_1_3_changed_def)
  then have "bit (i2caddr (info b)) (n + 4) = bit (i2caddr (info a)) (n + 4)"
    unfolding bit_and_iff bit_fixed_mask by (auto dest: bit_imp_le_length)
  then show "bit (drop_bit 4 (i2caddr (info b))) n = bit (drop_bit 4 (i2caddr (info a))) n"
    by (simp add: bit_drop_bit_eq add.commute)
qed

text \<open>
  C8. After \<^verbatim>\<open>AT24Cxx_config\<close> the top nibble of the device-address byte holds the
  device-type bits given (the low four bits of \<^verbatim>\<open>devaddr\<close>, the width of the
  bit-field). \<^verbatim>\<open>AT24Cxx_SetWordAddress\<close>, \<^verbatim>\<open>AT24Cxx_Read\<close> and every returning
  \<^verbatim>\<open>AT24Cxx_Write\<close>, \<^verbatim>\<open>AT24Cxx_Erase\<close> and \<^verbatim>\<open>AT24Cxx_Readback_Write\<close> change at
  most bits 1 to 3 of that byte, and a handle changed in bits 1 to 3 only has the same top
  nibble.
\<close>

theorem device_type_nibble_preserved:
  "drop_bit 4 (i2caddr (info (AT24Cxx_config dev0 ty devaddr haraddr))) = take_bit 4 devaddr
   \<and> only_bits_1_3_changed dev (fst (AT24Cxx_SetWordAddress dev addr))
   \<and> only_bits_1_3_changed dev (fst (snd (snd (AT24Cxx_Read dev saddr buf sz w))))
   \<and> (AT24Cxx_Write dev saddr data sz w = Some (Inr (rsp, dev', w'))
        \<longrightarrow> only_bits_1_3_changed dev dev')
   \<and> (AT24Cxx_Erase dev saddr fdata sz fbuf0 w = Some (Inr (rsp, dev', w'))
        \<longrightarrow> only_bits_1_3_changed dev dev')
   \<and> (AT24Cxx_Readback_Write dev addr16 data sz16 compare_data0 w = Some (Inr (rsp, dev', w'))
        \<longrightarrow> only_bits_1_3_changed dev dev')
   \<and> (only_bits_1_3_changed a b
        \<longrightarrow> drop_bit 4 (i2caddr (info b)) = drop_bit 4 (i2caddr (info a)))"
proof (intro conjI impI)
  show "drop_bit 4 (i2caddr (info (AT24Cxx_config dev0 ty devaddr haraddr))) = take_bit 4 devaddr"
    by (rule config_top_nibble)
  show "only_bits_1_3_changed dev (fst (AT24Cxx_SetWordAddress dev addr))"
    by (rule SetWordAddress_only_bits_1_3)
  show "only_bits_1_3_changed dev (fst (snd (snd (AT24Cxx_Read dev saddr buf sz w))))"
    by (rule Read_keeps)
  show "only_bits_1_3_changed dev dev'"
    if "AT24Cxx_Write dev saddr data sz w = Some (Inr (rsp, dev', w'))"
    using that Write_loop_keeps by (fastforce simp add: AT24Cxx_Write_def)
  show "only_bits_1_3_changed dev dev'"
    if "AT24Cxx_Erase dev saddr fdata sz fbuf0 w = Some (Inr (rsp, dev', w'))"
    using that Erase_loop_keeps by (fastforce simp add: AT24Cxx_Erase_def Let_def)
  show "only_bits_1_3_changed dev dev'"
    if "AT24Cxx_Readback_Write dev addr16 data sz16 compare_data0 w = Some (Inr (rsp, dev', w'))"
    using that by (rule Readback_Write_keeps)
  show "drop_bit 4 (i2caddr (info b)) = drop_bit 4 (i2caddr (info a))"
    if "only_bits_1_3_changed a b"
    using that by (rule only_bits_1_3_top_nibble)
qed

theorem device_type_nibble_preserved_witness:
  "drop_bit 4 (i2caddr (info chip16)) = take_bit 4 (0xA :: 8 word)
   \<and> AT24Cxx_Write chip16 0x320 zeros 4 world0
       = Some (Inr (0, chip16_at_320, \<lparr>hw = (), xlog = [write_320]\<rparr>))
   \<and> AT24Cxx_Erase chip16 0x320 0 4 zeros world0
       = Some (Inr (0, chip16_at_320, \<lparr>hw = (), xlog = [write_320]\<rparr>))
   \<and> AT24Cxx_Readback_Write chip16 0x320 zeros 4 zeros world0
       = Some (Inr (0, chip16_at_320, \<lparr>hw = (), xlog = [write_320, read_320 4]\<rparr>))
   \<and> only_bits_1_3_changed chip16 chip16_at_320
   \<and> i2caddr (info chip16) = 0xA0
   \<and> i2caddr (info chip16_at_320) = 0xA6
   \<and> drop_bit 4 (i2caddr (info chip16_at_320)) = drop_bit 4 (i2caddr (info chip16))"
proof -
  note t = device_type_nibble_preserved
    [where ?dev0.0 = "blank quiet_bus" and ty = AT24C16 and devaddr = "0xA" and haraddr = 0
       and dev = chip16 and saddr = "0x320" and data = zeros and sz = 4 and w = world0
       and fdata = 0 and ?fbuf0.0 = zeros and ?addr16.0 = "0x320" and ?sz16.0 = 4
       and ?compare_data0.0 = zeros and rsp = 0 and dev' = chip16_at_320
       and a = chip16 and b = chip16_at_320]
  have runW: "AT24Cxx_Write chip16 0x320 zeros 4 world0
       = Some (Inr (0, chip16_at_320, \<lparr>hw = (), xlog = [write_320]\<rparr>))"
    by (simp add: run_defs chip16_def chip16_at_320_def write_320_def) code_simp?
  have runE: "AT24Cxx_Erase chip16 0x320 0 4 zeros world0
       = Some (Inr (0, chip16_at_320, \<lparr>hw = (), xlog = [write_320]\<rparr>))"
    by (simp add: run_defs chip16_def chip16_at_320_def write_320_def) code_simp?
  have runR: "AT24Cxx_Readback_Write chip16 0x320 zeros 4 zeros world0
       = Some (Inr (0, chip16_at_320, \<lparr>hw = (), xlog = [write_320, read_320 4]\<rparr>))"
    by (simp add: run_defs readback_defs chip16_def chip16_at_320_def write_320_def read_320_def)
      code_simp?
  have k: "only_bits_1_3_changed chip16 chip16_at_320"
    using t [where w' = "\<lparr>hw = (), xlog = [write_320]\<rparr>"] runW by blast
  have k': "only_bits_1_3_changed chip16 chip16_at_320"
    using t [where w' = "\<lparr>hw = (), xlog = [write_320]\<rparr>"] runE by blast
  have k'': "only_bits_1_3_changed chip16 chip16_at_320"
    using t [where w' = "\<lparr>hw = (), xlog = [write_320, read_320 4]\<rparr>"] runR by blast
  have n: "drop_bit 4 (i2caddr (info chip16_at_320)) = drop_bit 4 (i2caddr (info chip16))"
    using t [where w' = world0] k by blast
  have c: "drop_bit 4 (i2caddr (info chip16)) = take_bit 4 (0xA :: 8 word)"
    unfolding chip16_def using t [where w' = world0] by blast
  have v0: "i2caddr (info chip16) = 0xA0" by code_simp
  have v1: "i2caddr (info chip16_at_320) = 0xA6" by code_simp
  from c runW runE runR k n v0 v1 show ?thesis by (intro conjI)
qed

section \<open>Termination of the readback verifier\<close>

lemma Write_returns:
  assumes "unat saddr + unat sz < 2 ^ 32"
  shows "\<exists>r. AT24Cxx_Write dev saddr data sz w = Some r
           \<and> (pagesize (info dev) \<noteq> 0 \<longrightarrow> (\<exists>v. r = Inr v))"
proof (cases "pagesize (info dev) = 0")
  case True
  then show ?thesis
    by (simp add: AT24Cxx_Write_def AT24Cxx_Write_loop.simps [of "saddr + sz" saddr])
next
  case False
  have "unat saddr + unat sz < 2 ^ LENGTH(32)" using assms by simp
  then have "unat saddr + unat sz = unat (saddr + sz)"
    by (simp add: unat_add_lem [THEN iffD1])
  from Write_loop_total [OF False this, of data 0 w] False
  show ?thesis by (auto simp add: AT24Cxx_Write_def)
qed

lemma Readback_loop_returns:
  assumes "unat q \<le> 255"
  shows "\<exists>r. Readback_loop data addr q i point cd dev w = Some r"
  using assms
proof (induction "unat q - unat i" arbitrary: i point cd dev w rule: less_induct)
  case less
  show ?case
  proof (cases "unat i < unat q")
    case False
    then show ?thesis by (simp add: Readback_loop.simps [of data addr q i])
  next
    case True
    let ?p = "word_of_nat (unat i * unat AT24Cxx_MAX_COMPARE_SIZE) :: 16 word"
    let ?rd = "AT24Cxx_Read dev (ucast addr + ucast ?p) cd (ucast AT24Cxx_MAX_COMPARE_SIZE) w"
    from True less.prems have "unat i + 1 < 2 ^ LENGTH(8)" by simp
    then have "unat i + unat (1 :: 8 word) < 2 ^ LENGTH(8)" by simp
    then have inc: "unat (i + 1) = unat i + 1" by (simp add: unat_add_lem [THEN iffD1])
    with True have "unat q - unat (i + 1) < unat q - unat i" by simp
    from less.hyps [OF this less.prems]
    have "\<exists>r. Readback_loop data addr q (i + 1) ?p (fst (snd ?rd)) (fst (snd (snd ?rd)))
              (snd (snd (snd ?rd))) = Some r" .
    with True show ?thesis
      by (simp add: Readback_loop.simps [of data addr q i] Let_def split_beta)
  qed
qed

lemma quotient_bound_iff:
  "(unat (sz :: 16 word) div unat AT24Cxx_MAX_COMPARE_SIZE \<le> 255) = (unat sz \<le> 2559)"
  by (simp add: AT24Cxx_MAX_COMPARE_SIZE_def) arith

text \<open>
  C9. \<^verbatim>\<open>AT24Cxx_Readback_Write\<close> returns for every size whose quotient by
  \<^verbatim>\<open>AT24Cxx_MAX_COMPARE_SIZE\<close> is at most 255, that is for every size up to 2559: the
  write loop ends, and the 8-bit counter of the comparison loop reaches the quotient. With
  a page size other than 0 the call returns without a fault.
\<close>

theorem Readback_Write_terminates:
  assumes "unat sz div unat AT24Cxx_MAX_COMPARE_SIZE \<le> 255"
  shows "unat sz \<le> 2559
         \<and> (\<exists>r. AT24Cxx_Readback_Write dev addr data sz compare_data0 w = Some r
                \<and> (pagesize (info dev) \<noteq> 0 \<longrightarrow> (\<exists>v. r = Inr v)))"
proof
  show "unat sz \<le> 2559" using assms by (simp add: quotient_bound_iff)
next
  let ?q = "sz div ucast AT24Cxx_MAX_COMPARE_SIZE"
  have "unat (ucast AT24Cxx_MAX_COMPARE_SIZE :: 16 word) = unat AT24Cxx_MAX_COMPARE_SIZE"
    by (simp add: AT24Cxx_MAX_COMPARE_SIZE_def)
  then have q: "unat ?q \<le> 255" using assms by (simp add: unat_div_distrib)
  have "unat addr < 2 ^ 16" "unat sz < 2 ^ 16"
    using unsigned_less [of addr] unsigned_less [of sz] by simp_all
  then have "unat addr + unat sz < 2 ^ 32" by simp
  moreover have "unat (ucast addr :: 32 word) = unat addr" "unat (ucast sz :: 32 word) = unat sz"
    by (simp_all add: unat_ucast_16_32)
  ultimately have "unat (ucast addr :: 32 word) + unat (ucast sz :: 32 word) < 2 ^ 32" by simp
  from Write_returns [OF this, of dev data w] obtain r1 where
    wr: "AT24Cxx_Write dev (ucast addr) data (ucast sz) w = Some r1"
    and ok: "pagesize (info dev) \<noteq> 0 \<longrightarrow> (\<exists>v. r1 = Inr v)" by blast
  show "\<exists>r. AT24Cxx_Readback_Write dev addr data sz compare_data0 w = Some r
                \<and> (pagesize (info dev) \<noteq> 0 \<longrightarrow> (\<exists>v. r = Inr v))"
  proof (cases r1)
    case (Inl f)
    with wr ok show ?thesis by (auto simp add: AT24Cxx_Readback_Write_def)
  next
    case (Inr v)
    obtain rsp dev1 w1 where v: "v = (rsp, dev1, w1)" by (cases v)
    from Readback_loop_returns [OF q, of data addr 0 0 compare_data0 dev1 w1]
    obtain y where "Readback_loop data addr ?q 0 0 compare_data0 dev1 w1 = Some y" by blast
    with wr Inr v show ?thesis
      by (cases y) (simp_all add: AT24Cxx_Readback_Write_def Let_def split_beta del: split_paired_Ex)
  qed
qed


theorem Readback_Write_terminates_witness:
  "unat (25 :: 16 word) div unat AT24Cxx_MAX_COMPARE_SIZE \<le> 255
   \<and> unat (25 :: 16 word) \<le> 2559
   \<and> pagesize (info chip16) \<noteq> 0
   \<and> (\<exists>v. AT24Cxx_Readback_Write chip16 0x320 zeros 25 zeros world0 = Some (Inr v))
   \<and> outcome (AT24Cxx_Readback_Write chip16 0x320 zeros 25 zeros world0)
       = Some (Inr (0, \<lparr>type = AT24C16, i2caddr = 0xA6, pagesize = 16\<rparr>,
           [\<lparr>x_dir = WR, x_devaddr = 0xA6, x_memaddr = 0x320, x_addrsize = 1, x_size = 16,
              x_payload = replicate 16 0\<rparr>,
            \<lparr>x_dir = WR, x_devaddr = 0xA6, x_memaddr = 0x330, x_addrsize = 1, x_size = 9,
              x_payload = replicate 9 0\<rparr>,
            \<lparr>x_dir = RD, x_devaddr = 0xA6, x_memaddr = 0x320, x_addrsize = 1, x_size = 10,
              x_payload = []\<rparr>,
            \<lparr>x_dir = RD, x_devaddr = 0xA6, x_memaddr = 0x32A, x_addrsize = 1, x_size = 10,
              x_payload = []\<rparr>,
            \<lparr>x_dir = RD, x_devaddr = 0xA6, x_memaddr = 0x334, x_addrsize = 1, x_size = 5,
              x_payload = []\<rparr>]))"
proof -
  have h: "unat (25 :: 16 word) div unat AT24Cxx_MAX_COMPARE_SIZE \<le> 255"
    by (simp add: AT24Cxx_MAX_COMPARE_SIZE_def)
  have p: "pagesize (info chip16) \<noteq> 0" by code_simp
  have run: "outcome (AT24Cxx_Readback_Write chip16 0x320 zeros 25 zeros world0)
       = Some (Inr (0, \<lparr>type = AT24C16, i2caddr = 0xA6, pagesize = 16\<rparr>,
           [\<lparr>x_dir = WR, x_devaddr = 0xA6, x_memaddr = 0x320, x_addrsize = 1, x_size = 16,
              x_payload = replicate 16 0\<rparr>,
            \<lparr>x_dir = WR, x_devaddr = 0xA6, x_memaddr = 0x330, x_addrsize = 1, x_size = 9,
              x_payload = replicate 9 0\<rparr>,
            \<lparr>x_dir = RD, x_devaddr = 0xA6, x_memaddr = 0x320, x_addrsize = 1, x_size = 10,
              x_payload = []\<rparr>,
            \<lparr>x_dir = RD, x_devaddr = 0xA6, x_memaddr = 0x32A, x_addrsize = 1, x_size = 10,
              x_payload = []\<rparr>,
            \<lparr>x_dir = RD, x_devaddr = 0xA6, x_memaddr = 0x334, x_addrsize = 1, x_size = 5,
              x_payload = []\<rparr>]))"
    by (simp add: run_defs readback_defs chip16_def) code_simp?
  from p Readback_Write_terminates [OF h, of chip16 "0x320" zeros zeros world0]
  have "\<exists>v. AT24Cxx_Readback_Write chip16 0x320 zeros 25 zeros world0 = Some (Inr v)"
    by blast
  with h p run show ?thesis by simp
qed

lemma compare_loop_iff:
  "compare_loop data point cd n j
     = (\<exists>k. unat j \<le> k \<and> k < unat n \<and> data (unat point + k) \<noteq> cd k)"
proof (induction data point cd n j rule: compare_loop.induct)
  case (1 data point cd n j)
  show ?case
  proof (cases "j < n")
    case False
    then have "\<not> unat j < unat n" by (simp add: word_less_nat_alt)
    with False show ?thesis by (simp add: compare_loop.simps [of data point cd n j])
  next
    case True
    then have lt: "unat j < unat n" by (simp add: word_less_nat_alt)
    moreover have "unat n < 2 ^ LENGTH(8)" by (rule unsigned_less)
    ultimately have "unat j + 1 < 2 ^ LENGTH(8)" by linarith
    then have "unat j + unat (1 :: 8 word) < 2 ^ LENGTH(8)" by simp
    then have inc: "unat (j + 1) = Suc (unat j)" by (simp add: unat_add_lem [THEN iffD1])
    show ?thesis
    proof (cases "data (unat point + unat j) \<noteq> cd (unat j)")
      case mism: True
      with True lt show ?thesis
        by (auto simp add: compare_loop.simps [of data point cd n j])
    next
      case match: False
      have "compare_loop data point cd n j = compare_loop data point cd n (j + 1)"
        using True match by (simp add: compare_loop.simps [of data point cd n j])
      also have "\<dots> = (\<exists>k. Suc (unat j) \<le> k \<and> k < unat n \<and> data (unat point + k) \<noteq> cd k)"
        using "1.IH" [OF True] match by (simp add: inc)
      also have "\<dots> = (\<exists>k. unat j \<le> k \<and> k < unat n \<and> data (unat point + k) \<noteq> cd k)"
        using match by (metis Suc_leD Suc_leI le_neq_implies_less)
      finally show ?thesis .
    qed
  qed
qed

lemma Read_port: "port (fst (snd (snd (AT24Cxx_Read dev saddr buf sz w)))) = port dev"
  using Read_keeps [of dev saddr buf sz w] by (simp add: only_bits_1_3_changed_def)

lemma Read_quiet_buffer:
  assumes "bus (port dev) = quiet_bus"
  shows "fst (snd (AT24Cxx_Read dev saddr buf sz w)) = (\<lambda>k. if k < unat sz then 0 else buf k)"
proof -
  have "port (fst (AT24Cxx_SetWordAddress dev saddr)) = port dev"
    using SetWordAddress_only_bits_1_3 [of dev saddr] by (simp add: only_bits_1_3_changed_def)
  with assms show ?thesis
    by (simp add: AT24Cxx_Read_def call_rmem_def Let_def split_beta quiet_bus_def sim_bus_def)
qed

lemma Readback_loop_no_exit:
  assumes "Readback_loop data addr q i point cd dev w = Some y"
  shows "\<not> (data = zeros \<and> 255 < unat q \<and> bus (port dev) = quiet_bus)"
  using assms
proof (induct rule: Readback_loop.raw_induct [rotated, consumes 1])
  case (1 loop data addr q i point cd dev w y)
  show ?case
  proof
    assume a: "data = zeros \<and> 255 < unat q \<and> bus (port dev) = quiet_bus"
    let ?p = "word_of_nat (unat i * unat AT24Cxx_MAX_COMPARE_SIZE) :: 16 word"
    let ?rd = "AT24Cxx_Read dev (ucast addr + ucast ?p) cd (ucast AT24Cxx_MAX_COMPARE_SIZE) w"
    have "unat i < 2 ^ LENGTH(8)" by (rule unsigned_less)
    with a have lt: "unat i < unat q" by simp
    have "\<not> compare_loop data ?p (fst (snd ?rd)) AT24Cxx_MAX_COMPARE_SIZE 0"
      using a by (simp add: compare_loop_iff Read_quiet_buffer zeros_def AT24Cxx_MAX_COMPARE_SIZE_def)
    with 1(2) lt
    have "loop data addr q (i + 1) ?p (fst (snd ?rd)) (fst (snd (snd ?rd))) (snd (snd (snd ?rd)))
        = Some y"
      by (simp add: Let_def split_beta)
    from 1(1) [OF this] a show False by (simp add: Read_port)
  qed
qed

text \<open>
  Beyond the bound the loop is not left: on a bus that reads back what was written
  (zeros), a size of 2560 or more gives a quotient above 255, the 8-bit counter wraps
  before reaching it, and the call does not return.
\<close>

lemma Readback_Write_diverges:
  assumes "2560 \<le> unat sz" and "bus (port dev) = quiet_bus" and "pagesize (info dev) \<noteq> 0"
  shows "AT24Cxx_Readback_Write dev addr zeros sz compare_data0 w = None"
proof -
  let ?q = "sz div ucast AT24Cxx_MAX_COMPARE_SIZE"
  have "unat (ucast AT24Cxx_MAX_COMPARE_SIZE :: 16 word) = 10"
    by (simp add: AT24Cxx_MAX_COMPARE_SIZE_def)
  then have "unat ?q = unat sz div 10" by (simp add: unat_div_distrib)
  with assms(1) have q: "255 < unat ?q" by simp
  have "unat addr < 2 ^ 16" "unat sz < 2 ^ 16"
    using unsigned_less [of addr] unsigned_less [of sz] by simp_all
  then have "unat addr + unat sz < 2 ^ 32" by simp
  then have "unat (ucast addr :: 32 word) + unat (ucast sz :: 32 word) < 2 ^ 32"
    by (simp add: unat_ucast_16_32)
  from Write_returns [OF this, of dev zeros w] assms(3) obtain rsp dev1 w1 where
    wr: "AT24Cxx_Write dev (ucast addr) zeros (ucast sz) w = Some (Inr (rsp, dev1, w1))"
    by auto
  then have "only_bits_1_3_changed dev dev1"
    using Write_loop_keeps by (fastforce simp add: AT24Cxx_Write_def)
  with assms(2) have b: "bus (port dev1) = quiet_bus" by (simp add: only_bits_1_3_changed_def)
  have "Readback_loop zeros addr ?q 0 0 compare_data0 dev1 w1 = None"
  proof (cases "Readback_loop zeros addr ?q 0 0 compare_data0 dev1 w1")
    case None
    then show ?thesis .
  next
    case (Some y)
    from Readback_loop_no_exit [OF this] q b show ?thesis by simp
  qed
  with wr show ?thesis by (simp add: AT24Cxx_Readback_Write_def Let_def)
qed

section \<open>The read path\<close>

lemma exec_prims_Nil: "exec_prims B [] s = s"
  by (simp add: exec_prims_def)

lemma exec_prims_Cons: "exec_prims B (e # es) s = exec_prims B es (step_prim B e s)"
  by (simp add: exec_prims_def)

lemma exec_prims_append: "exec_prims B (xs @ ys) s = exec_prims B ys (exec_prims B xs s)"
  by (simp add: exec_prims_def)

lemma Read_sw_loop_exec:
  assumes "unat i \<le> unat (sz - 1)"
  shows "\<exists>data' b'.
           exec_prims (bus (port dev)) (replicate (unat (sz - 1) - unat i) (Rbyte ACK))
             (rsp, data, unat i, sw_hw w) = (rsp, data', unat (sz - 1), b')
           \<and> Read_sw_loop dev sz i data w
               = (sz - 1, data',
                  \<lparr>sw_hw = b',
                    sw_log = sw_log w @ replicate (unat (sz - 1) - unat i) (Rbyte ACK)\<rparr>)"
  using assms
proof (induction dev sz i data w rule: Read_sw_loop.induct)
  case (1 dev sz i data w)
  show ?case
  proof (cases "i < sz - 1")
    case False
    then have "\<not> unat i < unat (sz - 1)" by (simp add: word_less_nat_alt)
    with "1.prems" have e: "unat i = unat (sz - 1)" by simp
    then have eq: "i = sz - 1" by (simp only: word_unat_eq_iff)
    have "Read_sw_loop dev sz i data w = (i, data, w)"
      using False by (simp add: Read_sw_loop.simps [of dev sz i])
    with eq show ?thesis by (simp add: exec_prims_Nil)
  next
    case True
    then have lt: "unat i < unat (sz - 1)" by (simp add: word_less_nat_alt)
    moreover have "unat (sz - 1) < 2 ^ LENGTH(32)" by (rule unsigned_less)
    ultimately have "unat i + 1 < 2 ^ LENGTH(32)" by linarith
    then have "unat i + unat (1 :: 32 word) < 2 ^ LENGTH(32)" by simp
    then have inc: "unat (i + 1) = Suc (unat i)" by (simp add: unat_add_lem [THEN iffD1])
    let ?r = "swi2c_rbyte (bus (port dev)) ACK (sw_hw w)"
    let ?w1 = "\<lparr>sw_hw = snd ?r, sw_log = sw_log w @ [Rbyte ACK]\<rparr>"
    have c: "call_rbyte dev ACK w = (fst ?r, ?w1)"
      by (simp add: call_rbyte_def split_beta)
    have n: "unat (sz - 1) - unat i = Suc (unat (sz - 1) - unat (i + 1))"
      using lt inc by simp
    have le: "unat (i + 1) \<le> unat (sz - 1)" using lt inc by simp
    from "1.IH" [OF True, of "(fst ?r, ?w1)" "fst ?r" ?w1, OF _ refl le] c
    obtain data' b' where
      ex: "exec_prims (bus (port dev)) (replicate (unat (sz - 1) - unat (i + 1)) (Rbyte ACK))
             (rsp, data(unat i := fst ?r), unat (i + 1), snd ?r) = (rsp, data', unat (sz - 1), b')"
      and lp: "Read_sw_loop dev sz (i + 1) (data(unat i := fst ?r)) ?w1
               = (sz - 1, data',
                  \<lparr>sw_hw = b',
                    sw_log = sw_log ?w1 @ replicate (unat (sz - 1) - unat (i + 1)) (Rbyte ACK)\<rparr>)"
      by (auto simp add: fun_upd_def)
    have "Read_sw_loop dev sz i data w
        = Read_sw_loop dev sz (i + 1) (data(unat i := fst ?r)) ?w1"
      using True by (simp add: Read_sw_loop.simps [of dev sz i] c)
    with lp have "Read_sw_loop dev sz i data w
        = (sz - 1, data',
           \<lparr>sw_hw = b', sw_log = sw_log w @ replicate (unat (sz - 1) - unat i) (Rbyte ACK)\<rparr>)"
      by (simp add: n)
    moreover have "exec_prims (bus (port dev)) (replicate (unat (sz - 1) - unat i) (Rbyte ACK))
             (rsp, data, unat i, sw_hw w) = (rsp, data', unat (sz - 1), b')"
      using ex by (simp add: n exec_prims_Cons inc)
    ultimately show ?thesis by blast
  qed
qed

lemma unat_minus_one_pos:
  fixes sz :: "32 word"
  assumes "1 \<le> unat sz"
  shows "unat (sz - 1) = unat sz - 1"
proof -
  have "(1 :: 32 word) \<le> sz" using assms by (simp add: word_le_nat_alt)
  then show ?thesis by (simp add: unat_sub)
qed

lemmas call_sw_defs =
  call_strt_def call_stop_def call_waddr_def call_raddr_def call_wbyte_def call_rbyte_def

text \<open>
  The bit-level read of at least one byte is its sequence of primitives, carried out in
  order from the status 0, the caller's buffer and index 0.
\<close>

lemma Read_sw_exec:
  assumes "1 \<le> unat sz"
  shows "AT24Cxx_Read_sw sdev saddr buf sz sw =
     (let dev' = fst (AT24Cxx_SetWordAddress sdev saddr);
          asz = snd (AT24Cxx_SetWordAddress sdev saddr);
          evs = [Strt, Waddr (i2caddr (info dev'))]
                @ map Wbyte (word_address_bytes asz saddr)
                @ [Strt, Raddr (i2caddr (info dev'))]
                @ replicate (unat sz - 1) (Rbyte ACK)
                @ [Rbyte NACK, Stop];
          (rsp, data, k, b) = exec_prims (bus (port sdev)) evs (0, buf, 0, sw_hw sw)
      in (rsp, data, dev', \<lparr>sw_hw = b, sw_log = sw_log sw @ evs\<rparr>))"
proof -
  let ?d = "fst (AT24Cxx_SetWordAddress sdev saddr)"
  let ?a = "snd (AT24Cxx_SetWordAddress sdev saddr)"
  let ?byte = "i2caddr (info ?d)"
  let ?B = "bus (port sdev)"
  let ?evs = "[Strt, Waddr ?byte] @ map Wbyte (word_address_bytes ?a saddr)
              @ [Strt, Raddr ?byte] @ replicate (unat sz - 1) (Rbyte ACK) @ [Rbyte NACK, Stop]"
  have B: "bus (port ?d) = ?B" by (simp add: SetWordAddress_port)
  have m: "unat (sz - 1) = unat sz - 1" using assms by (rule unat_minus_one_pos)
  let ?w1 = "call_strt ?d sw"
  let ?c1 = "call_waddr ?d ?byte ?w1"
  show ?thesis
  proof (cases "?a = 1")
    case True
    let ?c2 = "call_wbyte ?d (LSB_16 saddr) (snd ?c1)"
    let ?c4 = "call_raddr ?d ?byte (call_strt ?d (snd ?c2))"
    let ?rsp = "((0 OR fst ?c1) OR fst ?c2) OR fst ?c4"
    from Read_sw_loop_exec [of 0 sz ?d ?rsp buf "snd ?c4"] obtain data' b' where
      ex: "exec_prims ?B (replicate (unat sz - 1) (Rbyte ACK)) (?rsp, buf, 0, sw_hw (snd ?c4))
             = (?rsp, data', unat sz - 1, b')"
      and lp: "Read_sw_loop ?d sz 0 buf (snd ?c4)
             = (sz - 1, data',
                \<lparr>sw_hw = b', sw_log = sw_log (snd ?c4) @ replicate (unat sz - 1) (Rbyte ACK)\<rparr>)"
      by (auto simp add: B m)
    have pre: "exec_prims ?B [Strt, Waddr ?byte, Wbyte (LSB_16 saddr), Strt, Raddr ?byte]
        (0, buf, 0, sw_hw sw) = (?rsp, buf, 0, sw_hw (snd ?c4))"
      by (simp add: exec_prims_Cons exec_prims_Nil call_sw_defs split_beta B)
    have "exec_prims ?B ?evs (0, buf, 0, sw_hw sw)
        = exec_prims ?B [Rbyte NACK, Stop] (?rsp, data', unat sz - 1, b')"
      using True pre ex
      by (simp add: word_address_bytes_def exec_prims_append exec_prims_Cons
            exec_prims_Nil del: step_prim.simps)
    moreover have "AT24Cxx_Read_sw sdev saddr buf sz sw =
        (?rsp, data'(unat sz - 1 := fst (swi2c_rbyte ?B NACK b')), ?d,
         \<lparr>sw_hw = swi2c_stop ?B (snd (swi2c_rbyte ?B NACK b')), sw_log = sw_log sw @ ?evs\<rparr>)"
      using True lp
      by (simp add: AT24Cxx_Read_sw_def Let_def split_beta word_address_bytes_def
            call_sw_defs B m)
    ultimately show ?thesis
      by (simp add: Let_def exec_prims_Cons exec_prims_Nil)
  next
    case False
    let ?c2 = "call_wbyte ?d (MSB_16 saddr) (snd ?c1)"
    let ?c3 = "call_wbyte ?d (LSB_16 saddr) (snd ?c2)"
    let ?c4 = "call_raddr ?d ?byte (call_strt ?d (snd ?c3))"
    let ?rsp = "(((0 OR fst ?c1) OR fst ?c2) OR fst ?c3) OR fst ?c4"
    from Read_sw_loop_exec [of 0 sz ?d ?rsp buf "snd ?c4"] obtain data' b' where
      ex: "exec_prims ?B (replicate (unat sz - 1) (Rbyte ACK)) (?rsp, buf, 0, sw_hw (snd ?c4))
             = (?rsp, data', unat sz - 1, b')"
      and lp: "Read_sw_loop ?d sz 0 buf (snd ?c4)
             = (sz - 1, data',
                \<lparr>sw_hw = b', sw_log = sw_log (snd ?c4) @ replicate (unat sz - 1) (Rbyte ACK)\<rparr>)"
      by (auto simp add: B m)
    have pre: "exec_prims ?B
        [Strt, Waddr ?byte, Wbyte (MSB_16 saddr), Wbyte (LSB_16 saddr), Strt, Raddr ?byte]
        (0, buf, 0, sw_hw sw) = (?rsp, buf, 0, sw_hw (snd ?c4))"
      by (simp add: exec_prims_Cons exec_prims_Nil call_sw_defs split_beta B)
    have "exec_prims ?B ?evs (0, buf, 0, sw_hw sw)
        = exec_prims ?B [Rbyte NACK, Stop] (?rsp, data', unat sz - 1, b')"
      using False pre ex
      by (simp add: word_address_bytes_def exec_prims_append exec_prims_Cons
            exec_prims_Nil del: step_prim.simps)
    moreover have "AT24Cxx_Read_sw sdev saddr buf sz sw =
        (?rsp, data'(unat sz - 1 := fst (swi2c_rbyte ?B NACK b')), ?d,
         \<lparr>sw_hw = swi2c_stop ?B (snd (swi2c_rbyte ?B NACK b')), sw_log = sw_log sw @ ?evs\<rparr>)"
      using False lp
      by (simp add: AT24Cxx_Read_sw_def Let_def split_beta word_address_bytes_def
            call_sw_defs B m)
    ultimately show ?thesis
      by (simp add: Let_def exec_prims_Cons exec_prims_Nil)
  qed
qed

text \<open>The definitions a concrete read unfolds.\<close>

lemmas read_run_defs =
  Let_def AT24Cxx_SetWordAddress_def set_i2caddr_def
  wordaddr_bit0_store_def wordaddr_bit1_store_def wordaddr_bit2_store_def
  hardaddr_bit_store_def devtype_bit_store_def bitfield_store_def rbit_def
  AT24Cxx_config_def AT24Cxx_GetPageWriteSize_def blank_def
  word_address_bytes_def LSB_16_def MSB_16_def exec_prims_def

text \<open>
  C7. \<^verbatim>\<open>AT24Cxx_Read\<close> on the block transport is one \<^verbatim>\<open>rmem\<close> call, with the device
  address byte, the start address and the whole size, whatever the page size: the status
  returned, the buffer and the state of the bus are those of that call, and it is the one
  transfer requested. On the bit-level transport, for a size of at least 1, the call is
  the sequence of primitives start, device address, word address bytes, repeated start,
  read address, size - 1 byte reads with an acknowledge, one byte read with a
  no-acknowledge, stop: the status returned is the OR of the statuses of the write
  primitives, the bytes read are stored from index 0 on in the order read, and the bus is
  left as that sequence leaves it.
\<close>

theorem Read_one_request_ack_then_nack:
  "AT24Cxx_Read dev saddr buf sz w =
     (let dev' = fst (AT24Cxx_SetWordAddress dev saddr);
          asz = snd (AT24Cxx_SetWordAddress dev saddr);
          ((rsp, data), b) = rmem (bus (port dev)) (i2caddr (info dev')) saddr asz buf sz (hw w)
      in (rsp, data, dev',
          \<lparr>hw = b,
            xlog = xlog w @ [\<lparr>x_dir = RD, x_devaddr = i2caddr (info dev'), x_memaddr = saddr,
                              x_addrsize = asz, x_size = sz, x_payload = []\<rparr>]\<rparr>))
   \<and> (1 \<le> unat sz \<longrightarrow>
        AT24Cxx_Read_sw sdev saddr buf sz sw =
          (let dev' = fst (AT24Cxx_SetWordAddress sdev saddr);
               asz = snd (AT24Cxx_SetWordAddress sdev saddr);
               evs = [Strt, Waddr (i2caddr (info dev'))]
                     @ map Wbyte (word_address_bytes asz saddr)
                     @ [Strt, Raddr (i2caddr (info dev'))]
                     @ replicate (unat sz - 1) (Rbyte ACK)
                     @ [Rbyte NACK, Stop];
               (rsp, data, k, b) = exec_prims (bus (port sdev)) evs (0, buf, 0, sw_hw sw)
           in (rsp, data, dev', \<lparr>sw_hw = b, sw_log = sw_log sw @ evs\<rparr>)))"
proof (intro conjI impI)
  show "AT24Cxx_Read dev saddr buf sz w =
     (let dev' = fst (AT24Cxx_SetWordAddress dev saddr);
          asz = snd (AT24Cxx_SetWordAddress dev saddr);
          ((rsp, data), b) = rmem (bus (port dev)) (i2caddr (info dev')) saddr asz buf sz (hw w)
      in (rsp, data, dev',
          \<lparr>hw = b,
            xlog = xlog w @ [\<lparr>x_dir = RD, x_devaddr = i2caddr (info dev'), x_memaddr = saddr,
                              x_addrsize = asz, x_size = sz, x_payload = []\<rparr>]\<rparr>))"
    by (simp add: AT24Cxx_Read_def call_rmem_def Let_def split_beta SetWordAddress_port)
next
  assume "1 \<le> unat sz"
  then show "AT24Cxx_Read_sw sdev saddr buf sz sw =
          (let dev' = fst (AT24Cxx_SetWordAddress sdev saddr);
               asz = snd (AT24Cxx_SetWordAddress sdev saddr);
               evs = [Strt, Waddr (i2caddr (info dev'))]
                     @ map Wbyte (word_address_bytes asz saddr)
                     @ [Strt, Raddr (i2caddr (info dev'))]
                     @ replicate (unat sz - 1) (Rbyte ACK)
                     @ [Rbyte NACK, Stop];
               (rsp, data, k, b) = exec_prims (bus (port sdev)) evs (0, buf, 0, sw_hw sw)
           in (rsp, data, dev', \<lparr>sw_hw = b, sw_log = sw_log sw @ evs\<rparr>))"
    by (rule Read_sw_exec)
qed

theorem Read_one_request_ack_then_nack_witness:
  "1 \<le> unat (3 :: 32 word)
   \<and> fst (AT24Cxx_Read chip16_tagged 0x320 zeros 3 \<lparr>hw = 0, xlog = []\<rparr>) = 1
   \<and> map (fst (snd (AT24Cxx_Read chip16_tagged 0x320 zeros 3 \<lparr>hw = 0, xlog = []\<rparr>))) [0, 1, 2, 3]
       = [7, 8, 9, 0]
   \<and> hw (snd (snd (snd (AT24Cxx_Read chip16_tagged 0x320 zeros 3 \<lparr>hw = 0, xlog = []\<rparr>)))) = 1
   \<and> xlog (snd (snd (snd (AT24Cxx_Read chip16_tagged 0x320 zeros 3 \<lparr>hw = 0, xlog = []\<rparr>))))
       = [read_320 3]
   \<and> fst (AT24Cxx_Read_sw sw_chip32_tagged 0x320 zeros 3 \<lparr>sw_hw = 0, sw_log = []\<rparr>) = 5
   \<and> map (fst (snd (AT24Cxx_Read_sw sw_chip32_tagged 0x320 zeros 3 \<lparr>sw_hw = 0, sw_log = []\<rparr>)))
        [0, 1, 2, 3] = [27, 28, 29, 0]
   \<and> sw_hw (snd (snd (snd (AT24Cxx_Read_sw sw_chip32_tagged 0x320 zeros 3 \<lparr>sw_hw = 0, sw_log = []\<rparr>))))
       = 123
   \<and> sw_log (snd (snd (snd (AT24Cxx_Read_sw sw_chip32_tagged 0x320 zeros 3 \<lparr>sw_hw = 0, sw_log = []\<rparr>))))
       = [Strt, Waddr 0xA0, Wbyte 0x03, Wbyte 0x20, Strt, Raddr 0xA0,
          Rbyte ACK, Rbyte ACK, Rbyte NACK, Stop]"
proof -
  have h: "1 \<le> unat (3 :: 32 word)" by simp
  note t = Read_one_request_ack_then_nack
    [of chip16_tagged "0x320" zeros 3 "\<lparr>hw = 0, xlog = []\<rparr>" sw_chip32_tagged
        "\<lparr>sw_hw = 0, sw_log = []\<rparr>"]
  from t have r: "AT24Cxx_Read chip16_tagged 0x320 zeros 3 \<lparr>hw = 0, xlog = []\<rparr> =
     (let dev' = fst (AT24Cxx_SetWordAddress chip16_tagged 0x320);
          asz = snd (AT24Cxx_SetWordAddress chip16_tagged 0x320);
          ((rsp, data), b) = rmem (bus (port chip16_tagged)) (i2caddr (info dev')) 0x320 asz zeros 3
                               (hw \<lparr>hw = 0 :: nat, xlog = []\<rparr>)
      in (rsp, data, dev',
          \<lparr>hw = b,
            xlog = xlog \<lparr>hw = 0 :: nat, xlog = []\<rparr>
                   @ [\<lparr>x_dir = RD, x_devaddr = i2caddr (info dev'), x_memaddr = 0x320,
                              x_addrsize = asz, x_size = 3, x_payload = []\<rparr>]\<rparr>))"
    by (rule conjunct1)
  from t h have s: "AT24Cxx_Read_sw sw_chip32_tagged 0x320 zeros 3 \<lparr>sw_hw = 0, sw_log = []\<rparr> =
          (let dev' = fst (AT24Cxx_SetWordAddress sw_chip32_tagged 0x320);
               asz = snd (AT24Cxx_SetWordAddress sw_chip32_tagged 0x320);
               evs = [Strt, Waddr (i2caddr (info dev'))]
                     @ map Wbyte (word_address_bytes asz 0x320)
                     @ [Strt, Raddr (i2caddr (info dev'))]
                     @ replicate (unat (3 :: 32 word) - 1) (Rbyte ACK)
                     @ [Rbyte NACK, Stop];
               (rsp, data, k, b) = exec_prims (bus (port sw_chip32_tagged)) evs
                                     (0, zeros, 0, sw_hw \<lparr>sw_hw = 0 :: nat, sw_log = []\<rparr>)
           in (rsp, data, dev', \<lparr>sw_hw = b, sw_log = sw_log \<lparr>sw_hw = 0 :: nat, sw_log = []\<rparr> @ evs\<rparr>))"
    by (elim conjE impE)
  have two: "unat (3 :: 32 word) - 1 = Suc (Suc 0)" by simp
  show ?thesis
    unfolding r s
    by (simp add: read_run_defs chip16_tagged_def tagged_bus_def sw_chip32_tagged_def
          sw_tagged_bus_def read_320_def zeros_def two) code_simp?
qed

section \<open>The readback verifier and the transport statuses\<close>

lemma rel_loop_Inl:
  "rel_loop (Inl a) (Inl b) =
     (fst a = fst b \<and> same_handle (fst (snd a)) (fst (snd b)) \<and> snd (snd a) = snd (snd b))"
  by (cases a; cases b) auto

lemma same_handle_sym: "same_handle a b \<Longrightarrow> same_handle b a"
  by (simp add: same_handle_def same_transfers_def)

lemma SetWordAddress_info:
  "info dev = info dev' \<Longrightarrow>
     info (fst (AT24Cxx_SetWordAddress dev addr)) = info (fst (AT24Cxx_SetWordAddress dev' addr))
     \<and> snd (AT24Cxx_SetWordAddress dev addr) = snd (AT24Cxx_SetWordAddress dev' addr)"
  by (cases "type (info dev')") (simp_all add: AT24Cxx_SetWordAddress_def set_i2caddr_def)

lemma SetWordAddress_same_handle:
  assumes "same_handle dev dev'"
  shows "same_handle (fst (AT24Cxx_SetWordAddress dev addr)) (fst (AT24Cxx_SetWordAddress dev' addr))"
    and "snd (AT24Cxx_SetWordAddress dev addr) = snd (AT24Cxx_SetWordAddress dev' addr)"
  using assms SetWordAddress_info [of dev dev' addr]
  by (simp_all add: same_handle_def SetWordAddress_port)

lemma call_wmem_same:
  assumes "same_handle dev dev'"
  shows "snd (call_wmem dev byte addr asz data sz w) = snd (call_wmem dev' byte addr asz data sz w)"
  using assms by (simp add: call_wmem_def same_handle_def same_transfers_def split_beta)

lemma call_rmem_same:
  assumes "same_handle dev dev'"
  shows "snd (fst (call_rmem dev byte addr asz data sz w))
           = snd (fst (call_rmem dev' byte addr asz data sz w))"
    and "snd (call_rmem dev byte addr asz data sz w) = snd (call_rmem dev' byte addr asz data sz w)"
  using assms by (simp_all add: call_rmem_def same_handle_def same_transfers_def split_beta)

lemma Read_same:
  assumes "same_handle dev dev'"
  shows "fst (snd (AT24Cxx_Read dev saddr buf sz w)) = fst (snd (AT24Cxx_Read dev' saddr buf sz w))"
    and "same_handle (fst (snd (snd (AT24Cxx_Read dev saddr buf sz w))))
           (fst (snd (snd (AT24Cxx_Read dev' saddr buf sz w))))"
    and "snd (snd (snd (AT24Cxx_Read dev saddr buf sz w)))
           = snd (snd (snd (AT24Cxx_Read dev' saddr buf sz w)))"
proof -
  let ?d = "fst (AT24Cxx_SetWordAddress dev saddr)" and ?d' = "fst (AT24Cxx_SetWordAddress dev' saddr)"
  have h: "same_handle ?d ?d'" using assms by (rule SetWordAddress_same_handle)
  then have i: "i2caddr (info ?d) = i2caddr (info ?d')" by (simp add: same_handle_def)
  have a: "snd (AT24Cxx_SetWordAddress dev saddr) = snd (AT24Cxx_SetWordAddress dev' saddr)"
    using assms by (rule SetWordAddress_same_handle)
  show "fst (snd (AT24Cxx_Read dev saddr buf sz w)) = fst (snd (AT24Cxx_Read dev' saddr buf sz w))"
    by (simp add: AT24Cxx_Read_def Let_def split_beta i a call_rmem_same [OF h])
  show "same_handle (fst (snd (snd (AT24Cxx_Read dev saddr buf sz w))))
           (fst (snd (snd (AT24Cxx_Read dev' saddr buf sz w))))"
    by (simp add: AT24Cxx_Read_def Let_def split_beta h)
  show "snd (snd (snd (AT24Cxx_Read dev saddr buf sz w)))
           = snd (snd (snd (AT24Cxx_Read dev' saddr buf sz w)))"
    by (simp add: AT24Cxx_Read_def Let_def split_beta i a call_rmem_same [OF h])
qed

lemma Write_loop_same:
  assumes "AT24Cxx_Write_loop E i R data rsp dev w = Some y"
  shows "\<forall>rsp' dev'. same_handle dev dev' \<longrightarrow>
           (\<exists>y'. AT24Cxx_Write_loop E i R data rsp' dev' w = Some y' \<and> rel_res y y')"
  using assms
proof (induct rule: AT24Cxx_Write_loop.raw_induct [rotated, consumes 1])
  case (1 loop E i R data rsp dev w y)
  show ?case
  proof (intro allI impI)
    fix rsp' dev'
    assume sh: "same_handle dev dev'"
    then have ps: "pagesize (info dev') = pagesize (info dev)" by (simp add: same_handle_def)
    show "\<exists>y'. AT24Cxx_Write_loop E i R data rsp' dev' w = Some y' \<and> rel_res y y'"
    proof (cases "i < E")
      case False
      with 1(2) sh show ?thesis
        by (simp add: AT24Cxx_Write_loop.simps [of E i] ) auto
    next
      case True
      show ?thesis
      proof (cases "pagesize (info dev) = 0")
        case z: True
        with 1(2) True ps show ?thesis
          by (simp add: AT24Cxx_Write_loop.simps [of E i]) auto
      next
        case nz: False
        let ?sz = "min_macro R (ucast (remaining_in_page (pagesize (info dev)) i))"
        let ?d = "fst (AT24Cxx_SetWordAddress dev i)" and ?d' = "fst (AT24Cxx_SetWordAddress dev' i)"
        let ?a = "snd (AT24Cxx_SetWordAddress dev i)"
        let ?c = "call_wmem ?d (i2caddr (info ?d)) i ?a data ?sz w"
        let ?c' = "call_wmem ?d' (i2caddr (info ?d)) i ?a data ?sz w"
        have h: "same_handle ?d ?d'" using sh by (rule SetWordAddress_same_handle)
        then have ii: "i2caddr (info ?d') = i2caddr (info ?d)" by (simp add: same_handle_def)
        have aa: "snd (AT24Cxx_SetWordAddress dev' i) = ?a"
          using sh by (rule SetWordAddress_same_handle(2) [symmetric])
        have ww: "snd ?c' = snd ?c" using h by (rule call_wmem_same [symmetric])
        from 1(2) True nz
        have "loop E (i + ?sz) (R - ?sz) (\<lambda>k. data (k + unat ?sz)) (fst ?c) ?d (snd ?c) = Some y"
          by (simp add: Let_def split_beta)
        from 1(1) [OF this, rule_format, OF h, of "fst ?c'"]
        obtain y' where "AT24Cxx_Write_loop E (i + ?sz) (R - ?sz) (\<lambda>k. data (k + unat ?sz))
            (fst ?c') ?d' (snd ?c) = Some y'" and "rel_res y y'" by blast
        with True nz ps show ?thesis
          by (simp add: AT24Cxx_Write_loop.simps [of E i _ _ rsp' dev'] Let_def split_beta ii aa ww)
      qed
    qed
  qed
qed


lemma Readback_loop_same:
  assumes "Readback_loop data addr q i point cd dev w = Some y"
  shows "\<forall>dev'. same_handle dev dev' \<longrightarrow>
           (\<exists>y'. Readback_loop data addr q i point cd dev' w = Some y' \<and> rel_loop y y')"
  using assms
proof (induct rule: Readback_loop.raw_induct [rotated, consumes 1])
  case (1 loop data addr q i point cd dev w y)
  show ?case
  proof (intro allI impI)
    fix dev'
    assume sh: "same_handle dev dev'"
    show "\<exists>y'. Readback_loop data addr q i point cd dev' w = Some y' \<and> rel_loop y y'"
    proof (cases "unat i < unat q")
      case False
      with 1(2) sh show ?thesis
        by (simp add: Readback_loop.simps [of data addr q i]) auto
    next
      case True
      let ?p = "ucast i * ucast AT24Cxx_MAX_COMPARE_SIZE :: 16 word"
      let ?rd = "AT24Cxx_Read dev (ucast addr + ucast ?p) cd (ucast AT24Cxx_MAX_COMPARE_SIZE) w"
      let ?rd' = "AT24Cxx_Read dev' (ucast addr + ucast ?p) cd (ucast AT24Cxx_MAX_COMPARE_SIZE) w"
      note rs = Read_same [OF sh, of "ucast addr + ucast ?p" cd "ucast AT24Cxx_MAX_COMPARE_SIZE" w]
      show ?thesis
      proof (cases "compare_loop data ?p (fst (snd ?rd)) AT24Cxx_MAX_COMPARE_SIZE 0")
        case mism: True
        with 1(2) True have "y = Inl (1, fst (snd (snd ?rd)), snd (snd (snd ?rd)))"
          by (simp add: Let_def split_beta)
        moreover from mism True
        have "Readback_loop data addr q i point cd dev' w
            = Some (Inl (1, fst (snd (snd ?rd')), snd (snd (snd ?rd'))))"
          by (simp add: Readback_loop.simps [of data addr q i _ _ dev'] Let_def split_beta
                rs(1) [symmetric])
        ultimately show ?thesis using rs by (simp add: rel_loop_Inl)
      next
        case match: False
        with 1(2) True
        have "loop data addr q (i + 1) ?p (fst (snd ?rd)) (fst (snd (snd ?rd)))
            (snd (snd (snd ?rd))) = Some y"
          by (simp add: Let_def split_beta)
        from 1(1) [OF this, rule_format, OF rs(2)]
        obtain y' where "Readback_loop data addr q (i + 1) ?p (fst (snd ?rd))
            (fst (snd (snd ?rd'))) (snd (snd (snd ?rd))) = Some y'" and "rel_loop y y'" by blast
        with match True show ?thesis
          by (simp add: Readback_loop.simps [of data addr q i _ _ dev'] Let_def split_beta
                rs(1) [symmetric] rs(3) [symmetric])
      qed
    qed
  qed
qed

lemma Readback_tail_same:
  assumes "same_handle dev dev'"
  shows "fst (Readback_tail data addr q rem i point cd dev w)
           = fst (Readback_tail data addr q rem i point cd dev' w)"
    and "info (fst (snd (Readback_tail data addr q rem i point cd dev w)))
           = info (fst (snd (Readback_tail data addr q rem i point cd dev' w)))"
    and "snd (snd (Readback_tail data addr q rem i point cd dev w))
           = snd (snd (Readback_tail data addr q rem i point cd dev' w))"
proof -
  define p where
    "p = (if q > 0 then (word_of_nat (unat i * unat AT24Cxx_MAX_COMPARE_SIZE) :: 16 word) else point)"
  have tail: "Readback_tail data addr q rem i point cd d w =
      (if compare_loop data p (fst (snd (AT24Cxx_Read d (ucast addr + ucast p) cd (ucast rem) w))) rem 0
       then (1, snd (snd (AT24Cxx_Read d (ucast addr + ucast p) cd (ucast rem) w)))
       else (0, snd (snd (AT24Cxx_Read d (ucast addr + ucast p) cd (ucast rem) w))))" for d
    unfolding Readback_tail_def p_def [symmetric] by (simp add: Let_def split_beta)
  note rs = Read_same [OF assms, of "ucast addr + ucast p" cd "ucast rem" w]
  from rs(2) have inf: "info (fst (snd (snd (AT24Cxx_Read dev (ucast addr + ucast p) cd (ucast rem) w))))
      = info (fst (snd (snd (AT24Cxx_Read dev' (ucast addr + ucast p) cd (ucast rem) w))))"
    by (simp add: same_handle_def)
  show "fst (Readback_tail data addr q rem i point cd dev w)
           = fst (Readback_tail data addr q rem i point cd dev' w)"
    using rs(1) by (simp add: tail)
  show "info (fst (snd (Readback_tail data addr q rem i point cd dev w)))
           = info (fst (snd (Readback_tail data addr q rem i point cd dev' w)))"
    using rs(1) inf by (simp add: tail)
  show "snd (snd (Readback_tail data addr q rem i point cd dev w))
           = snd (snd (Readback_tail data addr q rem i point cd dev' w))"
    using rs(1) rs(3) by (simp add: tail)
qed

lemma Readback_Write_same:
  assumes "same_handle dev dev'"
    and "AT24Cxx_Readback_Write dev addr data sz cd0 w = Some y"
  shows "\<exists>y'. AT24Cxx_Readback_Write dev' addr data sz cd0 w = Some y'
           \<and> verdict (Some y') = verdict (Some y)"
proof -
  let ?q = "sz div ucast AT24Cxx_MAX_COMPARE_SIZE"
  let ?rem = "ucast (sz mod ucast AT24Cxx_MAX_COMPARE_SIZE) :: 8 word"
  from assms(2) obtain r1 where
    wr: "AT24Cxx_Write dev (ucast addr) data (ucast sz) w = Some r1"
    by (auto simp add: AT24Cxx_Readback_Write_def split: option.splits)
  from Write_loop_same [OF wr [unfolded AT24Cxx_Write_def], rule_format, OF assms(1), of 0]
  obtain r1' where
    wr': "AT24Cxx_Write dev' (ucast addr) data (ucast sz) w = Some r1'" and rr: "rel_res r1 r1'"
    by (auto simp add: AT24Cxx_Write_def)
  show ?thesis
  proof (cases r1)
    case (Inl f)
    with rr have "r1' = Inl f" by (cases r1') simp_all
    with wr' have "AT24Cxx_Readback_Write dev' addr data sz cd0 w = Some (Inl f)"
      by (simp add: AT24Cxx_Readback_Write_def)
    moreover from wr Inl assms(2) have "y = Inl f"
      by (simp add: AT24Cxx_Readback_Write_def)
    ultimately show ?thesis by (simp add: verdict_def)
  next
    case (Inr v)
    obtain rsp dev1 w1 where v: "v = (rsp, dev1, w1)" by (cases v)
    from rr Inr v obtain rsp' dev1' where
      r1': "r1' = Inr (rsp', dev1', w1)" and sh1: "same_handle dev1 dev1'"
      by (cases r1') auto
    from assms(2) wr Inr v obtain yl where
      lp: "Readback_loop data addr ?q 0 0 cd0 dev1 w1 = Some yl"
      by (auto simp add: AT24Cxx_Readback_Write_def Let_def split: option.splits)
    from Readback_loop_same [OF lp, rule_format, OF sh1] obtain yl' where
      lp': "Readback_loop data addr ?q 0 0 cd0 dev1' w1 = Some yl'" and rl: "rel_loop yl yl'"
      by blast
    show ?thesis
    proof (cases yl)
      case (Inl a)
      obtain v0 d0 w0 where a: "a = (v0, d0, w0)" by (cases a)
      from rl Inl a obtain d0' where yl': "yl' = Inl (v0, d0', w0)" and sh0: "same_handle d0 d0'"
        by (cases yl') auto
      have "y = Inr (v0, d0, w0)"
        using assms(2) wr \<open>r1 = Inr v\<close> v lp Inl a
        by (simp add: AT24Cxx_Readback_Write_def Let_def)
      moreover have "AT24Cxx_Readback_Write dev' addr data sz cd0 w = Some (Inr (v0, d0', w0))"
        using wr' r1' lp' yl' by (simp add: AT24Cxx_Readback_Write_def Let_def)
      ultimately show ?thesis using sh0
        by (simp add: verdict_def same_handle_def)
    next
      case (Inr b)
      obtain i p cd d2 w2 where b: "b = (i, p, cd, d2, w2)" by (cases b)
      from rl Inr b obtain d2' where yl': "yl' = Inr (i, p, cd, d2', w2)"
        and sh2: "same_handle d2 d2'"
        by (cases yl') auto
      note ts = Readback_tail_same [OF sh2, of data addr ?q ?rem i p cd w2]
      have "y = Inr (Readback_tail data addr ?q ?rem i p cd d2 w2)"
        using assms(2) wr \<open>r1 = Inr v\<close> v lp Inr b
        by (simp add: AT24Cxx_Readback_Write_def Let_def)
      moreover have "AT24Cxx_Readback_Write dev' addr data sz cd0 w
          = Some (Inr (Readback_tail data addr ?q ?rem i p cd d2' w2))"
        using wr' r1' lp' yl' by (simp add: AT24Cxx_Readback_Write_def Let_def)
      ultimately show ?thesis using ts
        by (simp add: verdict_def split_beta)
    qed
  qed
qed

text \<open>
  No status reaches the result of \<^verbatim>\<open>AT24Cxx_Readback_Write\<close>: on two transports that
  make the same transfers and differ only in the statuses they report, the call returns
  the same value (or does not return on either), with the same handle fields and the same
  world.
\<close>

lemma Readback_Write_statuses_unused:
  assumes "same_handle dev dev'"
  shows "verdict (AT24Cxx_Readback_Write dev' addr data sz compare_data0 w)
           = verdict (AT24Cxx_Readback_Write dev addr data sz compare_data0 w)"
proof (cases "AT24Cxx_Readback_Write dev addr data sz compare_data0 w")
  case (Some y)
  from Readback_Write_same [OF assms Some] Some show ?thesis by auto
next
  case None
  show ?thesis
  proof (cases "AT24Cxx_Readback_Write dev' addr data sz compare_data0 w")
    case n: None
    with None show ?thesis by simp
  next
    case (Some y')
    from Readback_Write_same [OF same_handle_sym [OF assms] Some] None
    show ?thesis by auto
  qed
qed


text \<open>
  C3. \<^verbatim>\<open>AT24Cxx_Readback_Write\<close> does not use the values \<^verbatim>\<open>AT24Cxx_Write\<close> and
  \<^verbatim>\<open>AT24Cxx_Read\<close> return, so a failure of the transport does not reach its caller. On a
  transport where every transfer reports a failure (status 1) while the bytes read back
  equal the bytes written, \<^verbatim>\<open>AT24Cxx_Write\<close> returns 1 and \<^verbatim>\<open>AT24Cxx_Read\<close> returns 1,
  and \<^verbatim>\<open>AT24Cxx_Readback_Write\<close> of 4 bytes at \<^verbatim>\<open>0x320\<close> returns 0 (success) after
  the write and the read it has requested, as it does on the transport that reports no
  failure.
\<close>

theorem Readback_Write_swallows_transport_failure:
  "fst (wmem failing_bus 0xA6 0x320 1 zeros 4 ()) = 1
   \<and> fst (fst (rmem failing_bus 0xA6 0x320 1 zeros 4 ())) = 1
   \<and> outcome (AT24Cxx_Write chip16_failing 0x320 zeros 4 world0)
     = Some (Inr (1, \<lparr>type = AT24C16, i2caddr = 0xA6, pagesize = 16\<rparr>, [write_320]))
   \<and> fst (AT24Cxx_Read chip16_failing 0x320 zeros 4 world0) = 1
   \<and> outcome (AT24Cxx_Readback_Write chip16_failing 0x320 zeros 4 zeros world0)
     = Some (Inr (0, \<lparr>type = AT24C16, i2caddr = 0xA6, pagesize = 16\<rparr>,
         [write_320, read_320 4]))
   \<and> outcome (AT24Cxx_Readback_Write chip16 0x320 zeros 4 zeros world0)
     = Some (Inr (0, \<lparr>type = AT24C16, i2caddr = 0xA6, pagesize = 16\<rparr>,
         [write_320, read_320 4]))"
  by (simp add: run_defs readback_defs chip16_def chip16_failing_def failing_bus_def
        write_320_def read_320_def) code_simp?

section \<open>Zero-length requests\<close>

text \<open>
  C10. A write or an erase of size 0 requests no transfer, leaves the handle and the bus
  as they are, and returns 0: the end address equals the start address, so the loop body
  is not entered.
\<close>

theorem zero_size_write_erase_noop:
  "AT24Cxx_Write dev saddr data 0 w = Some (Inr (0, dev, w))
   \<and> AT24Cxx_Erase dev saddr fdata 0 fbuf0 w = Some (Inr (0, dev, w))"
  by (simp add: AT24Cxx_Write_def AT24Cxx_Erase_def Let_def
        AT24Cxx_Write_loop.simps [of saddr saddr] AT24Cxx_Erase_loop.simps [of _ _ saddr saddr])

end
